theory Spec2Isabelle
  imports Complex_Main "HOL-Library.Word"
begin

unbundle bit_operations_syntax

section \<open>Numbers and small helpers (utils/math.ts)\<close>

text \<open>
  A JavaScript \<open>number\<close> that holds a grid value is modelled as a \<open>real\<close>: the
  finite values, with exact arithmetic. Integers that index grids are \<open>int\<close> (they can
  be negative before a bounds check) or \<open>nat\<close> (loop counters that start at 0).
  A typed array is a list; \<open>coordToIndex\<close> is the row-major index.
\<close>

definition clamp :: "'a::linorder \<Rightarrow> 'a \<Rightarrow> 'a \<Rightarrow> 'a" where
  "clamp v lo hi = min (max v lo) hi"

definition smootherstep :: "real \<Rightarrow> real \<Rightarrow> real \<Rightarrow> real" where
  "smootherstep edge0 edge1 x =
     (let t = clamp ((x - edge0) / (edge1 - edge0)) 0 1
      in t * t * t * (t * (t * 6 - 15) + 10))"

definition distance :: "real \<Rightarrow> real \<Rightarrow> real \<Rightarrow> real \<Rightarrow> real" where
  "distance x1 y1 x2 y2 = (let dx = x2 - x1; dy = y2 - y1 in sqrt (dx * dx + dy * dy))"

definition coordToIndex :: "int \<Rightarrow> int \<Rightarrow> int \<Rightarrow> int" where
  "coordToIndex x y width = y * width + x"

text \<open>Reading a typed array at a computed index.\<close>

definition arrGet :: "'a list \<Rightarrow> int \<Rightarrow> 'a" where
  "arrGet xs i = xs ! nat i"

text \<open>
  The arithmetic of a \<open>number\<close> is that of an IEEE 754 double: the result of \<open>+\<close>,
  \<open>*\<close> or \<open>/\<close> is the exact result rounded to the nearest double, ties to the even
  significand. Where the program turns such a result into an integer with \<open>Math.floor\<close>,
  the rounding decides the integer and is written out. \<open>roundDouble x\<close> is the double
  nearest to \<open>x\<close>: with \<open>e\<close> the binary exponent of \<open>x\<close>, not below -1022 (the
  subnormal numbers), the doubles around \<open>x\<close> are the multiples of \<open>2^(e - 52)\<close>.
  The overflow to \<open>Infinity\<close> beyond \<open>2^1024\<close> is left out.
\<close>

definition roundHalfEven :: "real \<Rightarrow> int" where
  "roundHalfEven x =
     (let f = \<lfloor>x\<rfloor>; d = x - real_of_int f
      in if d < 1 / 2 then f else if 1 / 2 < d then f + 1 else if even f then f else f + 1)"

function floorLog2 :: "real \<Rightarrow> int" where
  "floorLog2 x =
     (if x \<le> 0 then 0
      else if x < 1 then floorLog2 (x * 2) - 1
      else if 2 \<le> x then floorLog2 (x / 2) + 1
      else 0)"
  by pat_completeness auto

termination
proof (relation "measure (\<lambda>x. nat \<bar>\<lfloor>log 2 x\<rfloor>\<bar>)")
  show "wf (measure (\<lambda>x. nat \<bar>\<lfloor>log 2 x\<rfloor>\<bar>))" by simp
next
  fix x :: real
  assume a: "\<not> x \<le> 0" "x < 1"
  then have "log 2 (x * 2) = log 2 x + 1" by (simp add: log_mult)
  then have "\<lfloor>log 2 (x * 2)\<rfloor> = \<lfloor>log 2 x\<rfloor> + 1" by simp
  moreover have "log 2 x < 0" using a by simp
  then have "\<lfloor>log 2 x\<rfloor> \<le> - 1" by linarith
  ultimately show "(x * 2, x) \<in> measure (\<lambda>x. nat \<bar>\<lfloor>log 2 x\<rfloor>\<bar>)" by simp
next
  fix x :: real
  assume a: "\<not> x \<le> 0" "\<not> x < 1" "2 \<le> x"
  then have "log 2 (x / 2) = log 2 x - 1" by (simp add: log_divide)
  then have "\<lfloor>log 2 (x / 2)\<rfloor> = \<lfloor>log 2 x\<rfloor> - 1" by simp
  moreover have "1 \<le> log 2 x" using a by (simp add: le_log_iff)
  then have "1 \<le> \<lfloor>log 2 x\<rfloor>" by linarith
  ultimately show "(x / 2, x) \<in> measure (\<lambda>x. nat \<bar>\<lfloor>log 2 x\<rfloor>\<bar>)" by simp
qed

declare floorLog2.simps [simp del]

definition roundDouble :: "real \<Rightarrow> real" where
  "roundDouble x =
     (let e = max (floorLog2 \<bar>x\<bar>) (- 1022);
          ulp = 2 powi (e - 52)
      in real_of_int (roundHalfEven (x / ulp)) * ulp)"

section \<open>Seeded random numbers (utils/random.ts)\<close>

text \<open>
  The generator's state is a pair of 32-bit words. \<open>Math.imul\<close> is multiplication
  modulo \<open>2^32\<close>, \<open>^\<close> is XOR, \<open><<\<close> is a left shift that drops the high bits and
  \<open>>>>\<close> is the logical right shift; the sum in \<open>next\<close> is taken modulo \<open>2^32\<close> by
  \<open>>>> 0\<close>. All of them are the operations of \<open>32 word\<close>.
\<close>

type_synonym SeededRandom = "32 word \<times> 32 word"

definition charCodeAt :: "char \<Rightarrow> 32 word" where
  "charCodeAt c = of_nat (of_char c)"

fun seedFold :: "string \<Rightarrow> 32 word \<times> 32 word \<Rightarrow> 32 word \<times> 32 word" where
  "seedFold [] (h1, h2) = (h1, h2)"
| "seedFold (c # cs) (h1, h2) =
     seedFold cs ((h1 XOR charCodeAt c) * 0x85ebca77, (h2 XOR charCodeAt c) * 0xc2b2ae3d)"

definition newSeededRandom :: "string \<Rightarrow> SeededRandom" where
  "newSeededRandom seed =
     (let (h1, h2) = seedFold seed (0xdeadbeef, 0x41c6ce57);
          h1 = h1 XOR ((h1 XOR drop_bit 15 h2) * 0x735a2d97);
          h2 = h2 XOR ((h2 XOR drop_bit 15 h1) * 0xcaf649a9);
          h1 = h1 XOR drop_bit 16 h2;
          h2 = h2 XOR drop_bit 16 h1
      in (h1, h2))"

definition rngNext :: "SeededRandom \<Rightarrow> real \<times> SeededRandom" where
  "rngNext st =
     (let s1 = fst st; s0 = snd st;
          s1 = s1 XOR push_bit 23 s1;
          s1 = s1 XOR drop_bit 17 s1;
          s1 = s1 XOR s0;
          s1 = s1 XOR drop_bit 26 s0
      in (real_of_int (uint (s0 + s1)) / 4294967296, (s0, s1)))"

definition rngRange :: "real \<Rightarrow> real \<Rightarrow> SeededRandom \<Rightarrow> real \<times> SeededRandom" where
  "rngRange lo hi st = (let (r, st') = rngNext st in (lo + r * (hi - lo), st'))"

definition rngInt :: "int \<Rightarrow> int \<Rightarrow> SeededRandom \<Rightarrow> int \<times> SeededRandom" where
  "rngInt lo hi st = (let (r, st') = rngRange (real_of_int lo) (real_of_int (hi + 1)) st in (\<lfloor>r\<rfloor>, st'))"

text \<open>\<open>shuffle\<close>: Fisher-Yates from the last index down to 1, swapping in place.\<close>

fun shuffleFrom :: "nat \<Rightarrow> 'a list \<Rightarrow> SeededRandom \<Rightarrow> 'a list \<times> SeededRandom" where
  "shuffleFrom 0 xs st = (xs, st)"
| "shuffleFrom (Suc i) xs st =
     (let (j, st') = rngInt 0 (int (Suc i)) st;
          xi = xs ! Suc i; xj = arrGet xs j
      in shuffleFrom i (xs[Suc i := xj, nat j := xi]) st')"

definition shuffle :: "'a list \<Rightarrow> SeededRandom \<Rightarrow> 'a list \<times> SeededRandom" where
  "shuffle xs st = shuffleFrom (length xs - 1) xs st"

text \<open>
  \<open>uuid\<close> replaces each \<open>x\<close> and \<open>y\<close> of the template, left to right, by one
  hexadecimal digit drawn from \<open>next\<close>; the other characters are copied.
\<close>

definition hexDigit :: "nat \<Rightarrow> char" where
  "hexDigit v = ''0123456789abcdef'' ! v"

fun uuidFill :: "string \<Rightarrow> SeededRandom \<Rightarrow> string \<times> SeededRandom" where
  "uuidFill [] st = ([], st)"
| "uuidFill (c # cs) st =
     (if c = CHR ''x'' \<or> c = CHR ''y'' then
        (let (u, st') = rngNext st;
             r = nat \<lfloor>u * 16\<rfloor>;
             v = (if c = CHR ''x'' then r else (r mod 4) + 8);
             (rest, st'') = uuidFill cs st'
         in (hexDigit v # rest, st''))
      else (let (rest, st') = uuidFill cs st in (c # rest, st')))"

definition uuid :: "SeededRandom \<Rightarrow> string \<times> SeededRandom" where
  "uuid st = uuidFill ''xxxxxxxx-xxxx-4xxx-yxxx-xxxxxxxxxxxx'' st"

section \<open>Biome classification (generation/climate/biomes.ts)\<close>

datatype BiomeType =
  ocean | beach | grassland | forest | rainforest | desert | tundra | snow | mountain | swamp | lake

fun BIOME_IDS :: "BiomeType \<Rightarrow> nat" where
  "BIOME_IDS ocean = 0"
| "BIOME_IDS beach = 1"
| "BIOME_IDS grassland = 2"
| "BIOME_IDS forest = 3"
| "BIOME_IDS rainforest = 4"
| "BIOME_IDS desert = 5"
| "BIOME_IDS tundra = 6"
| "BIOME_IDS snow = 7"
| "BIOME_IDS mountain = 8"
| "BIOME_IDS swamp = 9"
| "BIOME_IDS lake = 10"

definition classifyBiome ::
  "real \<Rightarrow> real \<Rightarrow> real \<Rightarrow> real \<Rightarrow> real \<Rightarrow> real \<Rightarrow> real \<Rightarrow> nat" where
  "classifyBiome elevation temperature moisture seaLevel beachLevel mountainLevel snowLevel =
     (if elevation < seaLevel then BIOME_IDS ocean
      else if elevation < beachLevel then BIOME_IDS beach
      else if elevation > snowLevel \<or> (elevation > mountainLevel \<and> temperature < 0.2)
        then BIOME_IDS snow
      else if elevation > mountainLevel then BIOME_IDS mountain
      else if temperature < 0.2 then
        (if moisture > 0.5 then BIOME_IDS snow else BIOME_IDS tundra)
      else if temperature < 0.4 then
        (if moisture > 0.6 then BIOME_IDS forest
         else if moisture > 0.3 then BIOME_IDS grassland
         else BIOME_IDS tundra)
      else if temperature < 0.7 then
        (if moisture > 0.8 then
           (if elevation < seaLevel + 0.1 then BIOME_IDS swamp else BIOME_IDS forest)
         else if moisture > 0.4 then BIOME_IDS forest
         else if moisture > 0.2 then BIOME_IDS grassland
         else BIOME_IDS desert)
      else if moisture > 0.7 then
        (if elevation < seaLevel + 0.1 then BIOME_IDS swamp else BIOME_IDS rainforest)
      else if moisture > 0.4 then BIOME_IDS forest
      else if moisture > 0.2 then BIOME_IDS grassland
      else BIOME_IDS desert)"

text \<open>
  The coherent-noise function comes from the external package \<open>simplex-noise\<close>:
  \<open>createNoise2D\<close> draws its permutation table from the generator it is given and
  returns a function of two coordinates. It is a parameter of every definition that
  samples noise: the generator it is handed in, a noise function and the advanced
  generator out.
\<close>

type_synonym NoiseFunction2D = "real \<Rightarrow> real \<Rightarrow> real"
type_synonym NoiseLib = "SeededRandom \<Rightarrow> NoiseFunction2D \<times> SeededRandom"

record BiomeOptions =
  bo_width :: nat
  bo_height :: nat
  bo_heightmap :: "real list"
  bo_temperature :: "real list"
  bo_moisture :: "real list"
  bo_seaLevel :: real
  bo_seed :: string

text \<open>
  A grid filled by the nested loop \<open>for y < height: for x < width\<close> that writes cell
  \<open>coordToIndex x y width\<close> once: the rows in order, each row left to right.
\<close>

definition fillGrid :: "nat \<Rightarrow> nat \<Rightarrow> (nat \<Rightarrow> nat \<Rightarrow> 'a) \<Rightarrow> 'a list" where
  "fillGrid width height cell =
     concat (map (\<lambda>y. map (\<lambda>x. cell x y) [0..<width]) [0..<height])"

definition biomeCell :: "NoiseFunction2D \<Rightarrow> BiomeOptions \<Rightarrow> nat \<Rightarrow> nat \<Rightarrow> nat" where
  "biomeCell noise opts x y =
     (let beachLevel = bo_seaLevel opts + 0.03;
          mountainLevel = 0.7;
          snowLevel = 0.85;
          idx = coordToIndex (int x) (int y) (int (bo_width opts));
          jitterT = noise (real x / 60) (real y / 60) * 0.08;
          jitterM = noise (real x / 60 + 100) (real y / 60 + 100) * 0.08;
          elevation = arrGet (bo_heightmap opts) idx;
          temp = max 0 (min 1 (arrGet (bo_temperature opts) idx + jitterT));
          moist = max 0 (min 1 (arrGet (bo_moisture opts) idx + jitterM));
          beachNoise = noise (real x / 20) (real y / 20);
          beachThreshold = beachLevel - (if beachNoise > 0.6 then 0.02 else 0)
      in classifyBiome elevation temp moist (bo_seaLevel opts) beachThreshold mountainLevel snowLevel)"

definition generateBiomes :: "NoiseLib \<Rightarrow> BiomeOptions \<Rightarrow> nat list" where
  "generateBiomes createNoise2D opts =
     (let rng = newSeededRandom (bo_seed opts @ ''_biomes'');
          noise = fst (createNoise2D rng)
      in fillGrid (bo_width opts) (bo_height opts) (biomeCell noise opts))"

section \<open>Rivers (generation/hydrology/rivers.ts)\<close>

record RiverSegment =
  seg_x :: real
  seg_y :: real
  seg_flow :: real

record River =
  river_id :: string
  river_name :: string
  river_segments :: "RiverSegment list"

record RiverOptions =
  ro_width :: nat
  ro_height :: nat
  ro_seed :: string
  ro_heightmap :: "real list"
  ro_moisture :: "real list"
  ro_seaLevel :: real
  ro_riverCount :: nat
  ro_minRiverLength :: nat

text \<open>The values of a loop \<open>for (v = start; v < bound; v += step)\<close>.\<close>

function strideFrom :: "int \<Rightarrow> int \<Rightarrow> int \<Rightarrow> int list" where
  "strideFrom v bound step =
     (if v < bound \<and> 0 < step then v # strideFrom (v + step) bound step else [])"
  by pat_completeness auto
termination
  by (relation "measure (\<lambda>(v, bound, step). nat (bound - v))") auto

declare strideFrom.simps [simp del]

text \<open>A source candidate \<open>{x, y, score}\<close> is a triple.\<close>

type_synonym Candidate = "int \<times> int \<times> real"

definition sourceStep ::
  "int \<Rightarrow> real list \<Rightarrow> real list \<Rightarrow> real \<Rightarrow> int \<times> int \<Rightarrow>
   Candidate list \<times> SeededRandom \<Rightarrow> Candidate list \<times> SeededRandom" where
  "sourceStep width heightmap moisture seaLevel p acc =
     (let (x, y) = p; (candidates, rng) = acc;
          idx = coordToIndex x y width;
          elevation = arrGet heightmap idx;
          moist = arrGet moisture idx
      in if elevation > seaLevel + 0.3 \<and> elevation < 0.9 then
           (let (r, rng') = rngNext rng;
                score = elevation * 0.5 + moist * 0.5 + r * 0.2
            in (candidates @ [(x, y, score)], rng'))
         else (candidates, rng))"

definition findRiverSources ::
  "int \<Rightarrow> int \<Rightarrow> real list \<Rightarrow> real list \<Rightarrow> real \<Rightarrow> SeededRandom \<Rightarrow> nat \<Rightarrow>
   Candidate list \<times> SeededRandom" where
  "findRiverSources width height heightmap moisture seaLevel rng count =
     (let sampleStep = max 4 (width div 50);
          points = concat (map (\<lambda>y. map (\<lambda>x. (x, y))
                               (strideFrom sampleStep (width - sampleStep) sampleStep))
                          (strideFrom sampleStep (height - sampleStep) sampleStep));
          (candidates, rng') = fold (sourceStep width heightmap moisture seaLevel) points ([], rng)
      in (take count (sort_key (\<lambda>(x, y, score). - score) candidates), rng'))"

definition neighbors8 :: "(int \<times> int) list" where
  "neighbors8 = [(-1, 0), (1, 0), (0, -1), (0, 1), (-1, -1), (1, -1), (-1, 1), (1, 1)]"

definition descentStep ::
  "int \<Rightarrow> int \<Rightarrow> int \<Rightarrow> int \<Rightarrow> real list \<Rightarrow> int \<times> int \<Rightarrow>
   real \<times> int \<times> int \<Rightarrow> real \<times> int \<times> int" where
  "descentStep x y width height heightmap d acc =
     (let (dx, dy) = d; (lowestHeight, nextX, nextY) = acc;
          nx = x + dx; ny = y + dy
      in if nx < 0 \<or> nx \<ge> width \<or> ny < 0 \<or> ny \<ge> height then acc
         else (let neighborHeight = arrGet heightmap (coordToIndex nx ny width)
               in if neighborHeight < lowestHeight then (neighborHeight, nx, ny) else acc))"

definition findSteepestDescent ::
  "int \<Rightarrow> int \<Rightarrow> int \<Rightarrow> int \<Rightarrow> real list \<Rightarrow> SeededRandom \<Rightarrow> (int \<times> int) \<times> SeededRandom" where
  "findSteepestDescent x y width height heightmap rng =
     (let currentHeight = arrGet heightmap (coordToIndex x y width);
          (neighbors, rng') = shuffle neighbors8 rng;
          (lowestHeight, nextX, nextY) =
             fold (descentStep x y width height heightmap) neighbors (currentHeight, x, y)
      in ((nextX, nextY), rng'))"

definition neighbors4 :: "(int \<times> int) list" where
  "neighbors4 = [(-1, 0), (1, 0), (0, -1), (0, 1)]"

definition escapeNeighbors :: "int \<Rightarrow> int \<Rightarrow> int \<Rightarrow> int \<Rightarrow> nat \<Rightarrow> (int \<times> int \<times> nat) list" where
  "escapeNeighbors width height cx cy depth =
     map (\<lambda>(nx, ny). (nx, ny, depth + 1))
       (filter (\<lambda>(nx, ny). nx \<ge> 0 \<and> nx < width \<and> ny \<ge> 0 \<and> ny < height)
          (map (\<lambda>(dx, dy). (cx + dx, cy + dy)) neighbors4))"

text \<open>
  The breadth-first search of \<open>escapeLocalMinimum\<close>: the queue holds \<open>{x, y, depth}\<close>,
  \<open>visited\<close> the indices already expanded.
\<close>

function escapeLoop ::
  "int \<Rightarrow> int \<Rightarrow> real list \<Rightarrow> real \<Rightarrow> real \<Rightarrow> (int \<times> int \<times> nat) list \<Rightarrow> int set \<Rightarrow>
   (int \<times> int) option" where
  "escapeLoop width height heightmap seaLevel startHeight [] visited = None"
| "escapeLoop width height heightmap seaLevel startHeight ((cx, cy, depth) # queue) visited =
     (if depth > 20 then escapeLoop width height heightmap seaLevel startHeight queue visited
      else if coordToIndex cx cy width \<in> visited
        then escapeLoop width height heightmap seaLevel startHeight queue visited
      else if arrGet heightmap (coordToIndex cx cy width) < startHeight
              \<or> arrGet heightmap (coordToIndex cx cy width) < seaLevel
        then Some (cx, cy)
      else escapeLoop width height heightmap seaLevel startHeight
             (queue @ escapeNeighbors width height cx cy depth)
             (insert (coordToIndex cx cy width) visited))"
  by pat_completeness auto

definition queueWeight :: "(int \<times> int \<times> nat) list \<Rightarrow> nat" where
  "queueWeight queue = sum_list (map (\<lambda>(x, y, depth). 5 ^ (22 - depth)) queue)"

lemma queueWeight_append: "queueWeight (q @ r) = queueWeight q + queueWeight r"
  by (simp add: queueWeight_def)

lemma queueWeight_Cons: "queueWeight ((x, y, d) # q) = 5 ^ (22 - d) + queueWeight q"
  by (simp add: queueWeight_def)

lemma queueWeight_escapeNeighbors:
  "queueWeight (escapeNeighbors width height cx cy depth) \<le> 4 * 5 ^ (22 - (depth + 1))"
  by (simp add: escapeNeighbors_def neighbors4_def queueWeight_def)

termination escapeLoop
proof (relation "measure (\<lambda>(width, height, heightmap, seaLevel, startHeight, queue, visited).
                   queueWeight queue)", goal_cases)
  case 1
  then show ?case by simp
next
  case (2 width height heightmap seaLevel startHeight cx cy depth queue visited)
  then show ?case by (simp add: queueWeight_Cons)
next
  case (3 width height heightmap seaLevel startHeight cx cy depth queue visited)
  then show ?case by (simp add: queueWeight_Cons)
next
  case (4 width height heightmap seaLevel startHeight cx cy depth queue visited)
  then have d: "depth \<le> 20" by simp
  then have "22 - depth = Suc (22 - (depth + 1))" by simp
  then have "(5::nat) ^ (22 - depth) = 5 * 5 ^ (22 - (depth + 1))" by simp
  moreover have "(0::nat) < 5 ^ (22 - (depth + 1))" by simp
  ultimately have "4 * (5::nat) ^ (22 - (depth + 1)) < 5 ^ (22 - depth)" by linarith
  with queueWeight_escapeNeighbors [of width height cx cy depth]
  show ?case by (simp add: queueWeight_Cons queueWeight_append)
qed

definition escapeLocalMinimum ::
  "int \<Rightarrow> int \<Rightarrow> int \<Rightarrow> int \<Rightarrow> real list \<Rightarrow> real \<Rightarrow> (int \<times> int) option" where
  "escapeLocalMinimum x y width height heightmap seaLevel =
     escapeLoop width height heightmap seaLevel (arrGet heightmap (coordToIndex x y width))
       [(x, y, 0)] {}"

definition newSegment :: "real \<Rightarrow> real \<Rightarrow> RiverSegment" where
  "newSegment x y = \<lparr>seg_x = x, seg_y = y, seg_flow = 1\<rparr>"

text \<open>
  The loop of \<open>traceRiver\<close>; the first argument counts the steps that remain of
  \<open>maxSteps = width + height\<close>. The generator is shared with the caller, so the
  advanced generator is returned with the segments.
\<close>

fun traceLoop ::
  "nat \<Rightarrow> int \<Rightarrow> int \<Rightarrow> real list \<Rightarrow> real \<Rightarrow> int set \<Rightarrow>
   real \<Rightarrow> real \<Rightarrow> int \<Rightarrow> RiverSegment list \<Rightarrow> SeededRandom \<Rightarrow>
   RiverSegment list \<times> SeededRandom" where
  "traceLoop 0 width height heightmap seaLevel usedCells x y lastIdx segments rng = (segments, rng)"
| "traceLoop (Suc n) width height heightmap seaLevel usedCells x y lastIdx segments rng =
     (let intX = \<lfloor>x\<rfloor>; intY = \<lfloor>y\<rfloor>
      in if intX < 1 \<or> intX \<ge> width - 1 \<or> intY < 1 \<or> intY \<ge> height - 1 then (segments, rng)
         else (let idx = coordToIndex intX intY width;
                   elevation = arrGet heightmap idx
               in if elevation < seaLevel then (segments @ [newSegment x y], rng)
                  else if idx \<in> usedCells \<and> idx \<noteq> lastIdx then (segments, rng)
                  else (let segments' = segments @ [newSegment x y];
                            ((nextX, nextY), rng1) =
                               findSteepestDescent intX intY width height heightmap rng
                        in if nextX = intX \<and> nextY = intY then
                             (case escapeLocalMinimum intX intY width height heightmap seaLevel of
                                Some (ex, ey) \<Rightarrow>
                                  traceLoop n width height heightmap seaLevel usedCells
                                    (real_of_int ex) (real_of_int ey) idx segments' rng1
                              | None \<Rightarrow> (segments', rng1))
                           else (let (r1, rng2) = rngNext rng1;
                                     (r2, rng3) = rngNext rng2
                                 in traceLoop n width height heightmap seaLevel usedCells
                                      (real_of_int nextX + (r1 - 0.5) * 0.3)
                                      (real_of_int nextY + (r2 - 0.5) * 0.3)
                                      idx segments' rng3))))"

definition traceRiver ::
  "int \<Rightarrow> int \<Rightarrow> int \<Rightarrow> int \<Rightarrow> real list \<Rightarrow> real \<Rightarrow> int set \<Rightarrow> SeededRandom \<Rightarrow>
   River \<times> SeededRandom" where
  "traceRiver startX startY width height heightmap seaLevel usedCells rng =
     (let (segments, rng') =
            traceLoop (nat (width + height)) width height heightmap seaLevel usedCells
              (real_of_int startX) (real_of_int startY) (-1) [] rng
      in (\<lparr>river_id = '''', river_name = '''', river_segments = segments\<rparr>, rng'))"

definition calculateRiverFlow :: "River \<Rightarrow> River" where
  "calculateRiverFlow river =
     (let len = length (river_segments river)
      in river\<lparr>river_segments :=
           map (\<lambda>(i, seg). seg\<lparr>seg_flow := 0.3 + (real i / real len) * 0.7\<rparr>)
             (enumerate 0 (river_segments river))\<rparr>)"

text \<open>The grid cell a segment lies in: its floored position.\<close>

definition segmentCell :: "int \<Rightarrow> RiverSegment \<Rightarrow> int" where
  "segmentCell width seg = coordToIndex \<lfloor>seg_x seg\<rfloor> \<lfloor>seg_y seg\<rfloor> width"

text \<open>
  The loop over the sources in \<open>generateRivers\<close>: it stops once \<open>riverCount\<close> rivers are
  kept; a traced river is kept when it has at least \<open>minRiverLength\<close> segments, and its
  cells are then added to \<open>usedCells\<close>.
\<close>

fun riversLoop ::
  "RiverOptions \<Rightarrow> Candidate list \<Rightarrow> River list \<Rightarrow> int set \<Rightarrow> SeededRandom \<Rightarrow> River list" where
  "riversLoop opts [] rivers usedCells rng = rivers"
| "riversLoop opts ((sx, sy, score) # sources) rivers usedCells rng =
     (if length rivers \<ge> ro_riverCount opts then rivers
      else (let (river, rng1) =
                  traceRiver sx sy (int (ro_width opts)) (int (ro_height opts))
                    (ro_heightmap opts) (ro_seaLevel opts) usedCells rng
            in if length (river_segments river) \<ge> ro_minRiverLength opts then
                 (let (newId, rng2) = uuid rng1;
                      river' = river\<lparr>river_id := newId, river_name := ''''\<rparr>;
                      usedCells' = fold (\<lambda>seg used. insert (segmentCell (int (ro_width opts)) seg) used)
                                     (river_segments river') usedCells
                  in riversLoop opts sources (rivers @ [river']) usedCells' rng2)
               else riversLoop opts sources rivers usedCells rng1))"

definition generateRivers :: "RiverOptions \<Rightarrow> River list" where
  "generateRivers opts =
     (let rng = newSeededRandom (ro_seed opts @ ''_rivers'');
          (sources, rng') =
             findRiverSources (int (ro_width opts)) (int (ro_height opts)) (ro_heightmap opts)
               (ro_moisture opts) (ro_seaLevel opts) rng (ro_riverCount opts * 3)
      in map calculateRiverFlow (riversLoop opts sources [] {} rng'))"

text \<open>The cells covered by a river's path, as the claim words it.\<close>

definition riverCells :: "int \<Rightarrow> River \<Rightarrow> int set" where
  "riverCells width river = segmentCell width ` set (river_segments river)"


text \<open>
  What one traced river looks like against the cells used so far: every segment lies in a
  cell that is not used, except possibly the last one, which then lies below sea level.
\<close>

definition tracedOK :: "int \<Rightarrow> real list \<Rightarrow> real \<Rightarrow> int set \<Rightarrow> RiverSegment list \<Rightarrow> bool" where
  "tracedOK w hm sea used S \<longleftrightarrow>
     (\<exists>pre fin. S = pre @ fin
        \<and> (\<forall>s\<in>set pre. segmentCell w s \<notin> used \<and> 0 < segmentCell w s)
        \<and> (fin = [] \<or> (\<exists>s. fin = [s] \<and> arrGet hm (segmentCell w s) < sea \<and> 0 < segmentCell w s)))"


text \<open>Cells shared by two rivers of a list lie below sea level.\<close>

definition sharedBelowSea :: "int \<Rightarrow> real list \<Rightarrow> real \<Rightarrow> River list \<Rightarrow> bool" where
  "sharedBelowSea w hm sea rivers \<longleftrightarrow>
     (\<forall>i j c. i < j \<and> j < length rivers \<and> c \<in> riverCells w (rivers ! i) \<and> c \<in> riverCells w (rivers ! j)
        \<longrightarrow> arrGet hm c < sea)"


text \<open>
  A small map for concrete runs of the river tracer: 13 by 9 cells that rise by 0.05 with
  each ring around the single cell \<open>(6, 4)\<close>, which lies at elevation 0, below the sea
  level 0.1; the two sampled source points \<open>(4, 4)\<close> and \<open>(8, 4)\<close> lie at 0.45.
\<close>

definition coneHeight :: "nat \<Rightarrow> nat \<Rightarrow> real" where
  "coneHeight x y =
     (if x = 6 \<and> y = 4 then 0
      else 0.35 + 0.05 * real_of_int (max \<bar>int x - 6\<bar> \<bar>int y - 4\<bar>))"

definition coneOptions :: RiverOptions where
  "coneOptions =
     \<lparr>ro_width = 13, ro_height = 9, ro_seed = ''d'',
      ro_heightmap = fillGrid 13 9 coneHeight, ro_moisture = replicate 117 0.5,
      ro_seaLevel = 0.1, ro_riverCount = 2, ro_minRiverLength = 1\<rparr>"

section \<open>Heightmap blend (generation/terrain/heightmap.ts, applyLandmassMask)\<close>

text \<open>
  The blend step of \<open>applyLandmassMask\<close> for one cell: \<open>maskValue\<close> is the landmass-mask value
  (\<open>mask\<close>) of the cell and \<open>noiseValue\<close> the fractal noise stored in the heightmap before the
  blend. The function has no sea-level parameter; \<open>seaLvl\<close> is the local constant 0.35.
\<close>

definition blendCell :: "real \<Rightarrow> real \<Rightarrow> real" where
  "blendCell maskValue noiseValue =
     (let terrainValue = (noiseValue + 1) / 2;
          seaLvl = 0.35
      in if maskValue < 0.3 then
           (let oceanDepth = maskValue / 0.3 in oceanDepth * seaLvl * 0.95)
         else
           (let landFactor = (maskValue - 0.3) / 0.7;
                smoothedLand = smootherstep 0 1 landFactor;
                minHeight = seaLvl;
                maxHeight = 0.4 + terrainValue * 0.6
            in minHeight + (maxHeight - minHeight) * smoothedLand))"

section \<open>Settlements (generation/civilization/settlements.ts)\<close>

datatype SettlementSize =
  thorp | hamlet | village | small_town | large_town | small_city | large_city | metropolis

text \<open>The population range \<open>(min, max)\<close> of each size (constants).\<close>

fun SETTLEMENT_POPULATIONS :: "SettlementSize \<Rightarrow> int \<times> int" where
  "SETTLEMENT_POPULATIONS thorp = (20, 80)"
| "SETTLEMENT_POPULATIONS hamlet = (81, 400)"
| "SETTLEMENT_POPULATIONS village = (401, 900)"
| "SETTLEMENT_POPULATIONS small_town = (901, 2000)"
| "SETTLEMENT_POPULATIONS large_town = (2001, 5000)"
| "SETTLEMENT_POPULATIONS small_city = (5001, 12000)"
| "SETTLEMENT_POPULATIONS large_city = (12001, 25000)"
| "SETTLEMENT_POPULATIONS metropolis = (25001, 100000)"

record Settlement =
  st_id :: string
  st_name :: string
  st_x :: int
  st_y :: int
  st_size :: SettlementSize
  st_population :: int
  st_type :: string

record SettlementOptions =
  so_width :: nat
  so_height :: nat
  so_seed :: string
  so_heightmap :: "real list"
  so_moisture :: "real list"
  so_biomes :: "nat list"
  so_rivers :: "River list"
  so_seaLevel :: real
  so_density :: real

definition BIOME_OCEAN :: nat where "BIOME_OCEAN = 0"
definition BIOME_BEACH :: nat where "BIOME_BEACH = 1"
definition BIOME_MOUNTAIN :: nat where "BIOME_MOUNTAIN = 8"
definition BIOME_SNOW :: nat where "BIOME_SNOW = 7"

text \<open>The offsets of \<open>for dy in -r..r: for dx in -r..r\<close>, in loop order.\<close>

definition window :: "int \<Rightarrow> (int \<times> int) list" where
  "window r = concat (map (\<lambda>dy. map (\<lambda>dx. (dx, dy)) [- r..r]) [- r..r])"

definition proximityStep ::
  "int \<Rightarrow> int \<Rightarrow> int \<Rightarrow> int \<Rightarrow> int \<times> int \<Rightarrow> real list \<Rightarrow> real list" where
  "proximityStep width height rx ry d riverProximity =
     (let (dx, dy) = d; nx = rx + dx; ny = ry + dy
      in if nx \<ge> 0 \<and> nx < width \<and> ny \<ge> 0 \<and> ny < height then
           (let dist = sqrt (real_of_int (dx * dx + dy * dy));
                v = max 0 (1 - dist / 10);
                idx = coordToIndex nx ny width
            in riverProximity[nat idx := max (arrGet riverProximity idx) v])
         else riverProximity)"

definition riverProximityMap :: "int \<Rightarrow> int \<Rightarrow> River list \<Rightarrow> real list" where
  "riverProximityMap width height rivers =
     fold (\<lambda>river rp.
             fold (\<lambda>segment rp'.
                     fold (proximityStep width height \<lfloor>seg_x segment\<rfloor> \<lfloor>seg_y segment\<rfloor>)
                       (window 10) rp')
               (river_segments river) rp)
       rivers (replicate (nat (width * height)) 0)"

definition coastCell :: "int \<Rightarrow> int \<Rightarrow> nat list \<Rightarrow> nat \<Rightarrow> nat \<Rightarrow> real" where
  "coastCell width height biomes x y =
     (if arrGet biomes (coordToIndex (int x) (int y) width) = BIOME_OCEAN then 0
      else if list_ex (\<lambda>(dx, dy).
                 (let nx = int x + dx; ny = int y + dy
                  in nx \<ge> 0 \<and> nx < width \<and> ny \<ge> 0 \<and> ny < height
                     \<and> arrGet biomes (coordToIndex nx ny width) = BIOME_OCEAN)) (window 1)
        then 1
      else 0)"

definition suitabilityCell ::
  "int \<Rightarrow> real list \<Rightarrow> real list \<Rightarrow> nat list \<Rightarrow> real list \<Rightarrow> real list \<Rightarrow> nat \<Rightarrow> nat \<Rightarrow> real" where
  "suitabilityCell width heightmap moisture biomes riverProximity coastProximity x y =
     (let idx = coordToIndex (int x) (int y) width;
          biome = arrGet biomes idx
      in if biome = BIOME_OCEAN \<or> biome = BIOME_MOUNTAIN \<or> biome = BIOME_SNOW then 0
         else (let elevation = arrGet heightmap idx;
                   moist = arrGet moisture idx;
                   score = 0.5;
                   elevationScore = 1 - \<bar>elevation - 0.4\<bar> * 2;
                   score = score + elevationScore * 0.2;
                   score = score + arrGet riverProximity idx * 0.3;
                   score = score + arrGet coastProximity idx * 0.25;
                   score = score + moist * 0.1;
                   score = (if biome = BIOME_BEACH then score + 0.15 else score)
               in max 0 (min 1 score)))"

definition calculateSuitability ::
  "nat \<Rightarrow> nat \<Rightarrow> real list \<Rightarrow> real list \<Rightarrow> nat list \<Rightarrow> River list \<Rightarrow> real list" where
  "calculateSuitability width height heightmap moisture biomes rivers =
     (let riverProximity = riverProximityMap (int width) (int height) rivers;
          coastProximity = fillGrid width height (coastCell (int width) (int height) biomes)
      in fillGrid width height
           (suitabilityCell (int width) heightmap moisture biomes riverProximity coastProximity))"

text \<open>A placement candidate \<open>{x, y, weight}\<close> is a triple.\<close>

definition candidateStep ::
  "int \<Rightarrow> real list \<Rightarrow> (int \<times> int) list \<Rightarrow> real \<Rightarrow> int \<times> int \<Rightarrow> Candidate list \<Rightarrow> Candidate list" where
  "candidateStep width suitability placedPositions minDistance p candidates =
     (let (x, y) = p;
          score = arrGet suitability (coordToIndex x y width)
      in if score < 0.3 then candidates
         else if list_ex (\<lambda>(px, py). distance (real_of_int x) (real_of_int y)
                                        (real_of_int px) (real_of_int py) < minDistance)
                   placedPositions
           then candidates
         else candidates @ [(x, y, score * score)])"

fun pickWeighted :: "Candidate list \<Rightarrow> real \<Rightarrow> (int \<times> int) option" where
  "pickWeighted [] random = None"
| "pickWeighted ((x, y, weight) # candidates) random =
     (if random - weight \<le> 0 then Some (x, y) else pickWeighted candidates (random - weight))"

definition findSettlementLocation ::
  "int \<Rightarrow> int \<Rightarrow> real list \<Rightarrow> (int \<times> int) list \<Rightarrow> real \<Rightarrow> SeededRandom \<Rightarrow>
   (int \<times> int) option \<times> SeededRandom" where
  "findSettlementLocation width height suitability placedPositions minDistance rng =
     (let step = max 2 (width div 100);
          points = concat (map (\<lambda>y. map (\<lambda>x. (x, y)) (strideFrom step (width - step) step))
                          (strideFrom step (height - step) step));
          candidates = fold (candidateStep width suitability placedPositions minDistance) points []
      in if candidates = [] then (None, rng)
         else (let totalWeight = fold (\<lambda>(x, y, weight) total. total + weight) candidates 0;
                   (r, rng') = rngNext rng;
                   random = r * totalWeight
               in case pickWeighted candidates random of
                    Some p \<Rightarrow> (Some p, rng')
                  | None \<Rightarrow> (let (x, y, weight) = last candidates in (Some (x, y), rng'))))"

definition isNearRiverMouth :: "int \<Rightarrow> int \<Rightarrow> River list \<Rightarrow> real \<Rightarrow> bool" where
  "isNearRiverMouth x y rivers maxDist =
     list_ex (\<lambda>river. river_segments river \<noteq> []
                \<and> distance (real_of_int x) (real_of_int y)
                     (seg_x (last (river_segments river))) (seg_y (last (river_segments river)))
                   < maxDist) rivers"

definition isNearMajorRiver :: "int \<Rightarrow> int \<Rightarrow> River list \<Rightarrow> real \<Rightarrow> bool" where
  "isNearMajorRiver x y rivers maxDist =
     list_ex (\<lambda>river. \<not> length (river_segments river) < 20
                \<and> list_ex (\<lambda>segment. distance (real_of_int x) (real_of_int y)
                                       (seg_x segment) (seg_y segment) < maxDist)
                     (river_segments river)) rivers"

definition determineSettlementSize ::
  "int \<Rightarrow> int \<Rightarrow> int \<Rightarrow> real list \<Rightarrow> River list \<Rightarrow> nat list \<Rightarrow> SeededRandom \<Rightarrow>
   SettlementSize \<times> SeededRandom" where
  "determineSettlementSize x y width suitability rivers biomes rng =
     (let idx = coordToIndex x y width;
          score = arrGet suitability idx;
          nearRiverMouth = isNearRiverMouth x y rivers 20;
          isCoastal = (arrGet biomes idx = BIOME_BEACH);
          nearMajorRiver = isNearMajorRiver x y rivers 15;
          sizeScore = score;
          sizeScore = (if nearRiverMouth then sizeScore + 0.3 else sizeScore);
          sizeScore = (if isCoastal then sizeScore + 0.2 else sizeScore);
          sizeScore = (if nearMajorRiver then sizeScore + 0.15 else sizeScore);
          (r, rng') = rngNext rng;
          sizeScore = sizeScore + (r - 0.5) * 0.3
      in (if sizeScore > 0.9 then metropolis
          else if sizeScore > 0.8 then large_city
          else if sizeScore > 0.7 then small_city
          else if sizeScore > 0.6 then large_town
          else if sizeScore > 0.5 then small_town
          else if sizeScore > 0.4 then village
          else if sizeScore > 0.3 then hamlet
          else thorp, rng'))"

definition generatePopulation :: "SettlementSize \<Rightarrow> SeededRandom \<Rightarrow> int \<times> SeededRandom" where
  "generatePopulation size' rng = (let (lo, hi) = SETTLEMENT_POPULATIONS size' in rngInt lo hi rng)"

definition determineSettlementType ::
  "int \<Rightarrow> int \<Rightarrow> int \<Rightarrow> nat list \<Rightarrow> River list \<Rightarrow> real list \<Rightarrow> string" where
  "determineSettlementType x y width biomes rivers heightmap =
     (let idx = coordToIndex x y width;
          biome = arrGet biomes idx;
          elevation = arrGet heightmap idx
      in if biome = BIOME_BEACH then ''port''
         else if isNearMajorRiver x y rivers 10 then ''river_town''
         else if elevation > 0.6 then ''mountain_town''
         else ''farming_village'')"

definition countLandCells :: "nat list \<Rightarrow> nat" where
  "countLandCells biomes = length (filter (\<lambda>b. b \<noteq> BIOME_OCEAN) biomes)"

text \<open>
  The number of settlements asked for: \<open>Math.floor((landCells / mapArea) * density * 50)\<close>,
  then \<open>Math.max(3, Math.min(baseCount, 100))\<close>. The quotient and the two products are
  doubles, each rounded before the next operation. The density is the double nearest to
  the field \<open>so_density\<close>, the field itself when it holds a double.
\<close>

definition settlementCount :: "SettlementOptions \<Rightarrow> int" where
  "settlementCount opts =
     (let mapArea = so_width opts * so_height opts;
          landCells = countLandCells (so_biomes opts);
          density = roundDouble (so_density opts);
          baseCount = \<lfloor>roundDouble
                        (roundDouble (roundDouble (real landCells / real mapArea) * density) * 50)\<rfloor>
      in max 3 (min baseCount 100))"

text \<open>
  The placement loop \<open>for (attempt = 0; attempt < settlementCount * 10 &&
  settlements.length < settlementCount; attempt++)\<close>; the first argument counts the
  attempts that remain.
\<close>

fun placeLoop ::
  "nat \<Rightarrow> SettlementOptions \<Rightarrow> real list \<Rightarrow> real \<Rightarrow> Settlement list \<Rightarrow> (int \<times> int) list \<Rightarrow>
   SeededRandom \<Rightarrow> Settlement list" where
  "placeLoop 0 opts suitability minDistance settlements placedPositions rng = settlements"
| "placeLoop (Suc n) opts suitability minDistance settlements placedPositions rng =
     (if \<not> int (length settlements) < settlementCount opts then settlements
      else (case findSettlementLocation (int (so_width opts)) (int (so_height opts)) suitability
                   placedPositions minDistance rng of
              (None, rng1) \<Rightarrow>
                placeLoop n opts suitability minDistance settlements placedPositions rng1
            | (Some (lx, ly), rng1) \<Rightarrow>
                (let (size', rng2) =
                       determineSettlementSize lx ly (int (so_width opts)) suitability
                         (so_rivers opts) (so_biomes opts) rng1;
                     (newId, rng3) = uuid rng2;
                     (population, rng4) = generatePopulation size' rng3;
                     settlement =
                       \<lparr>st_id = newId, st_name = [], st_x = lx, st_y = ly, st_size = size',
                        st_population = population,
                        st_type = determineSettlementType lx ly (int (so_width opts))
                                    (so_biomes opts) (so_rivers opts) (so_heightmap opts)\<rparr>
                 in placeLoop n opts suitability minDistance (settlements @ [settlement])
                      (placedPositions @ [(lx, ly)]) rng4)))"

definition generateSettlements :: "SettlementOptions \<Rightarrow> Settlement list" where
  "generateSettlements opts =
     (let rng = newSeededRandom (so_seed opts @ ''_settlements'');
          suitability = calculateSuitability (so_width opts) (so_height opts) (so_heightmap opts)
                          (so_moisture opts) (so_biomes opts) (so_rivers opts);
          mapArea = so_width opts * so_height opts;
          minDistance = sqrt (real mapArea / real_of_int (settlementCount opts)) * 0.5;
          settlements = placeLoop (nat (settlementCount opts * 10)) opts suitability minDistance [] [] rng
      in sort_key (\<lambda>s. - st_population s) settlements)"

text \<open>
  Maps for concrete runs of the settlement planner: one that is all ocean, one of 20 by 20
  cells that is all grassland, with the density left open, and one of 7 by 7 cells that is
  all grassland.
\<close>

definition plainOptions :: "real \<Rightarrow> SettlementOptions" where
  "plainOptions density =
     \<lparr>so_width = 20, so_height = 20, so_seed = ''alpha'',
      so_heightmap = replicate 400 0.5, so_moisture = replicate 400 0.5,
      so_biomes = replicate 400 2, so_rivers = [],
      so_seaLevel = 0.35, so_density = density\<rparr>"

definition landOptions :: SettlementOptions where
  "landOptions =
     \<lparr>so_width = 7, so_height = 7, so_seed = ''alpha'',
      so_heightmap = replicate 49 0.5, so_moisture = replicate 49 0.5,
      so_biomes = replicate 49 2, so_rivers = [],
      so_seaLevel = 0.35, so_density = 0.08\<rparr>"

definition oceanOptions :: SettlementOptions where
  "oceanOptions =
     \<lparr>so_width = 256, so_height = 256, so_seed = ''alpha'',
      so_heightmap = replicate 65536 0, so_moisture = replicate 65536 1,
      so_biomes = replicate 65536 0, so_rivers = [],
      so_seaLevel = 0.35, so_density = 0.3\<rparr>"

section \<open>Erosion (generation/terrain/erosion.ts)\<close>

record ErosionOptions =
  eo_width :: int
  eo_height :: int
  eo_iterations :: nat
  eo_erosionRate :: real
  eo_depositionRate :: real
  eo_evaporationRate :: real
  eo_sedimentCapacity :: real
  eo_minSlope :: real

definition DEFAULT_EROSION_OPTIONS :: ErosionOptions where
  "DEFAULT_EROSION_OPTIONS =
     \<lparr>eo_width = 512, eo_height = 512, eo_iterations = 50000, eo_erosionRate = 0.3,
      eo_depositionRate = 0.3, eo_evaporationRate = 0.02, eo_sedimentCapacity = 4,
      eo_minSlope = 0.01\<rparr>"

text \<open>\<open>gradient\<close> of utils/math.ts: central differences, one-sided at the border.\<close>

definition gradient :: "real list \<Rightarrow> int \<Rightarrow> int \<Rightarrow> int \<Rightarrow> int \<Rightarrow> real \<times> real" where
  "gradient data x y width height =
     (let left = (if x > 0 then arrGet data (coordToIndex (x - 1) y width)
                  else arrGet data (coordToIndex x y width));
          right = (if x < width - 1 then arrGet data (coordToIndex (x + 1) y width)
                   else arrGet data (coordToIndex x y width));
          up = (if y > 0 then arrGet data (coordToIndex x (y - 1) width)
                else arrGet data (coordToIndex x y width));
          down = (if y < height - 1 then arrGet data (coordToIndex x (y + 1) width)
                  else arrGet data (coordToIndex x y width))
      in ((right - left) / 2, (down - up) / 2))"

definition getInterpolatedHeight :: "real list \<Rightarrow> real \<Rightarrow> real \<Rightarrow> int \<Rightarrow> int \<Rightarrow> real" where
  "getInterpolatedHeight heightmap x y width height =
     (let x0 = \<lfloor>x\<rfloor>; y0 = \<lfloor>y\<rfloor>;
          x1 = min (x0 + 1) (width - 1);
          y1 = min (y0 + 1) (height - 1);
          fx = x - real_of_int x0;
          fy = y - real_of_int y0;
          h00 = arrGet heightmap (coordToIndex x0 y0 width);
          h10 = arrGet heightmap (coordToIndex x1 y0 width);
          h01 = arrGet heightmap (coordToIndex x0 y1 width);
          h11 = arrGet heightmap (coordToIndex x1 y1 width);
          h0 = h00 * (1 - fx) + h10 * fx;
          h1 = h01 * (1 - fx) + h11 * fx
      in h0 * (1 - fy) + h1 * fy)"

text \<open>\<open>heightmap[idx] += amount\<close> on a typed array: a write outside the array is dropped.\<close>

definition addAt :: "real list \<Rightarrow> int \<Rightarrow> real \<Rightarrow> real list" where
  "addAt heightmap idx amount =
     (if 0 \<le> idx then heightmap[nat idx := arrGet heightmap idx + amount] else heightmap)"

definition depositSediment :: "real list \<Rightarrow> real \<Rightarrow> real \<Rightarrow> int \<Rightarrow> int \<Rightarrow> real \<Rightarrow> real list" where
  "depositSediment heightmap x y width height amount =
     (let x0 = \<lfloor>x\<rfloor>; y0 = \<lfloor>y\<rfloor>;
          x1 = min (x0 + 1) (width - 1);
          y1 = min (y0 + 1) (height - 1);
          fx = x - real_of_int x0;
          fy = y - real_of_int y0;
          heightmap = addAt heightmap (coordToIndex x0 y0 width) (amount * (1 - fx) * (1 - fy));
          heightmap = addAt heightmap (coordToIndex x1 y0 width) (amount * fx * (1 - fy));
          heightmap = addAt heightmap (coordToIndex x0 y1 width) (amount * (1 - fx) * fy);
          heightmap = addAt heightmap (coordToIndex x1 y1 width) (amount * fx * fy)
      in heightmap)"

definition erodeWeights :: "int \<Rightarrow> int \<Rightarrow> int \<Rightarrow> int \<Rightarrow> (int \<times> real) list" where
  "erodeWeights x0 y0 width height =
     concat (map (\<lambda>(dx, dy).
               (let nx = x0 + dx; ny = y0 + dy
                in if nx < 0 \<or> nx \<ge> width \<or> ny < 0 \<or> ny \<ge> height then []
                   else (let dist = sqrt (real_of_int (dx * dx + dy * dy))
                         in if dist \<le> 2 then [(coordToIndex nx ny width, max 0 (2 - dist) / 2)]
                            else [])))
             (window 2))"

definition erodeTerrain :: "real list \<Rightarrow> real \<Rightarrow> real \<Rightarrow> int \<Rightarrow> int \<Rightarrow> real \<Rightarrow> real list" where
  "erodeTerrain heightmap x y width height amount =
     (let weights = erodeWeights \<lfloor>x\<rfloor> \<lfloor>y\<rfloor> width height;
          totalWeight = fold (\<lambda>(idx, weight) total. total + weight) weights 0
      in fold (\<lambda>(idx, weight) hm. addAt hm idx (- (amount * (weight / totalWeight)))) weights heightmap)"

record Droplet =
  dr_x :: real
  dr_y :: real
  dr_dirX :: real
  dr_dirY :: real
  dr_speed :: real
  dr_water :: real
  dr_sediment :: real

text \<open>
  The life of one droplet, \<open>for (step = 0; step < maxSteps; step++)\<close> with
  \<open>maxSteps = 64\<close>. The body of the loop is cut into three parts in the order of the
  source: the new direction, the exchange of sediment with the terrain, and the step
  itself with its three \<open>break\<close>s.
\<close>

definition flowDirection ::
  "ErosionOptions \<Rightarrow> Droplet \<Rightarrow> real list \<Rightarrow> SeededRandom \<Rightarrow> real \<times> real \<times> SeededRandom" where
  "flowDirection opts d result rng =
     (let (gdx, gdy) = gradient result \<lfloor>dr_x d\<rfloor> \<lfloor>dr_y d\<rfloor> (eo_width opts) (eo_height opts);
          inertia = 0.3;
          dirX = dr_dirX d * inertia - gdx * (1 - inertia);
          dirY = dr_dirY d * inertia - gdy * (1 - inertia);
          len = sqrt (dirX * dirX + dirY * dirY)
      in if len > 0 then (dirX / len, dirY / len, rng)
         else (let (angle, rng') = rngRange 0 (pi * 2) rng
               in (cos angle, sin angle, rng')))"

definition exchangeSediment ::
  "ErosionOptions \<Rightarrow> Droplet \<Rightarrow> real list \<Rightarrow> real \<Rightarrow> real \<times> real list" where
  "exchangeSediment opts d result heightDiff =
     (let width = eo_width opts; height = eo_height opts;
          slope = max (- heightDiff) (eo_minSlope opts);
          capacity = max (slope * dr_speed d * dr_water d * eo_sedimentCapacity opts) 0
      in if dr_sediment d > capacity \<or> heightDiff > 0 then
           (let depositAmount =
                  (if heightDiff > 0 then min (dr_sediment d) heightDiff
                   else (dr_sediment d - capacity) * eo_depositionRate opts)
            in (dr_sediment d - depositAmount,
                depositSediment result (dr_x d) (dr_y d) width height depositAmount))
         else
           (let erodeAmount =
                  min ((capacity - dr_sediment d) * eo_erosionRate opts) (- heightDiff)
            in (dr_sediment d + erodeAmount,
                erodeTerrain result (dr_x d) (dr_y d) width height erodeAmount)))"

fun dropletLoop ::
  "nat \<Rightarrow> ErosionOptions \<Rightarrow> Droplet \<Rightarrow> real list \<Rightarrow> SeededRandom \<Rightarrow> real list \<times> SeededRandom" where
  "dropletLoop 0 opts d result rng = (result, rng)"
| "dropletLoop (Suc n) opts d result rng =
     (let width = eo_width opts; height = eo_height opts;
          intX = \<lfloor>dr_x d\<rfloor>; intY = \<lfloor>dr_y d\<rfloor>
      in if intX < 0 \<or> intX \<ge> width - 1 \<or> intY < 0 \<or> intY \<ge> height - 1 then (result, rng)
         else
           (let (dirX, dirY, rng) = flowDirection opts d result rng;
                newX = dr_x d + dirX;
                newY = dr_y d + dirY
            in if newX < 0 \<or> newX \<ge> real_of_int (width - 1) \<or> newY < 0
                  \<or> newY \<ge> real_of_int (height - 1)
               then (result, rng)
               else
                 (let oldHeight = getInterpolatedHeight result (dr_x d) (dr_y d) width height;
                      newHeight = getInterpolatedHeight result newX newY width height;
                      heightDiff = newHeight - oldHeight;
                      (sediment, result) = exchangeSediment opts d result heightDiff;
                      speed = sqrt (max 0 (dr_speed d * dr_speed d + heightDiff));
                      water = dr_water d * (1 - eo_evaporationRate opts)
                  in if water < 0.01 then (result, rng)
                     else dropletLoop n opts
                            \<lparr>dr_x = newX, dr_y = newY, dr_dirX = dirX, dr_dirY = dirY,
                             dr_speed = speed, dr_water = water, dr_sediment = sediment\<rparr>
                            result rng)))"

definition dropletRun :: "ErosionOptions \<Rightarrow> real list \<times> SeededRandom \<Rightarrow> real list \<times> SeededRandom" where
  "dropletRun opts state =
     (let (result, rng) = state;
          (x, rng) = rngRange 0 (real_of_int (eo_width opts - 1)) rng;
          (y, rng) = rngRange 0 (real_of_int (eo_height opts - 1)) rng
      in dropletLoop 64 opts
           \<lparr>dr_x = x, dr_y = y, dr_dirX = 0, dr_dirY = 0, dr_speed = 1, dr_water = 1,
            dr_sediment = 0\<rparr> result rng)"

text \<open>
  The closing normalisation of \<open>applyErosion\<close>: \<open>min\<close> and \<open>max\<close> of the array, then
  \<open>clamp((v - min) / range, 0, 1)\<close> with \<open>range = max - min || 1\<close>.
\<close>

definition normalizeResult :: "real list \<Rightarrow> real list" where
  "normalizeResult result =
     (let mn = fold min result (hd result);
          mx = fold max result (hd result);
          rng = (if mx - mn = 0 then 1 else mx - mn)
      in map (\<lambda>v. clamp ((v - mn) / rng) 0 1) result)"

definition applyErosion :: "real list \<Rightarrow> string \<Rightarrow> ErosionOptions \<Rightarrow> real list" where
  "applyErosion heightmap seed opts =
     (let rng = newSeededRandom (seed @ ''_erosion'');
          (result, rng') = ((dropletRun opts) ^^ (eo_iterations opts)) (heightmap, rng)
      in normalizeResult result)"

text \<open>
  Thermal erosion: the scan of one cell looks at the four neighbours in the order left,
  right, up, down and moves half of the excess over the talus angle to the lowest one.
\<close>

definition thermalNeighbor ::
  "real list \<Rightarrow> real \<Rightarrow> real \<Rightarrow> int \<Rightarrow> real \<times> int \<Rightarrow> real \<times> int" where
  "thermalNeighbor result h talusAngle nIdx acc =
     (let (maxDiff, maxNeighbor) = acc;
          diff = h - arrGet result nIdx
      in if diff > maxDiff \<and> diff > talusAngle then (diff, nIdx) else acc)"

definition thermalCell :: "int \<Rightarrow> real \<Rightarrow> int \<times> int \<Rightarrow> real list \<Rightarrow> real list" where
  "thermalCell width talusAngle p result =
     (let (x, y) = p;
          idx = coordToIndex x y width;
          h = arrGet result idx;
          neighbors = [coordToIndex (x - 1) y width, coordToIndex (x + 1) y width,
                       coordToIndex x (y - 1) width, coordToIndex x (y + 1) width];
          (maxDiff, maxNeighbor) = fold (thermalNeighbor result h talusAngle) neighbors (0, -1)
      in if maxNeighbor \<ge> 0 then
           (let transfer = (maxDiff - talusAngle) * 0.5;
                result = addAt result idx (- transfer)
            in addAt result maxNeighbor transfer)
         else result)"

text \<open>The cells \<open>1 \<le> y < height - 1\<close>, \<open>1 \<le> x < width - 1\<close> in scan order.\<close>

definition interiorCells :: "int \<Rightarrow> int \<Rightarrow> (int \<times> int) list" where
  "interiorCells width height =
     concat (map (\<lambda>y. map (\<lambda>x. (x, y)) (strideFrom 1 (width - 1) 1)) (strideFrom 1 (height - 1) 1))"

definition applyThermalErosion :: "real list \<Rightarrow> int \<Rightarrow> int \<Rightarrow> nat \<Rightarrow> real \<Rightarrow> real list" where
  "applyThermalErosion heightmap width height iterations talusAngle =
     ((\<lambda>result. fold (thermalCell width talusAngle) (interiorCells width height) result)
        ^^ iterations) heightmap"

section \<open>River carving (generation/hydrology/rivers.ts)\<close>

definition carveSegment :: "int \<Rightarrow> real \<Rightarrow> RiverSegment \<Rightarrow> real list \<Rightarrow> real list" where
  "carveSegment width carveDepth segment heightmap =
     (let x = \<lfloor>seg_x segment\<rfloor>; y = \<lfloor>seg_y segment\<rfloor>
      in if x \<ge> 0 \<and> x < width \<and> y \<ge> 0
            \<and> real_of_int y < real (length heightmap) / real_of_int width
         then (let idx = coordToIndex x y width;
                   carve = carveDepth * seg_flow segment
               in heightmap[nat idx := max 0 (arrGet heightmap idx - carve)])
         else heightmap)"

definition carveRiversIntoHeightmap :: "real list \<Rightarrow> River list \<Rightarrow> int \<Rightarrow> real \<Rightarrow> real list" where
  "carveRiversIntoHeightmap heightmap rivers width carveDepth =
     fold (\<lambda>river hm. fold (carveSegment width carveDepth) (river_segments river) hm) rivers heightmap"

section \<open>Gaussian blur (utils/math.ts)\<close>

definition createGaussianKernel :: "int \<Rightarrow> real list" where
  "createGaussianKernel radius =
     (let sigma = real_of_int radius / 3;
          s = 2 * sigma * sigma;
          raw = map (\<lambda>(x, y). exp (- real_of_int (x * x + y * y) / s) / (pi * s)) (window radius);
          total = fold (\<lambda>v acc. acc + v) raw 0
      in map (\<lambda>v. v / total) raw)"

definition blurStep ::
  "real list \<Rightarrow> int \<Rightarrow> int \<Rightarrow> int \<Rightarrow> real list \<Rightarrow> int \<Rightarrow> int \<Rightarrow> int \<times> int \<Rightarrow>
   real \<times> real \<Rightarrow> real \<times> real" where
  "blurStep data width height radius kern x y k acc =
     (let (kx, ky) = k; (total, weightSum) = acc;
          kernelSize = radius * 2 + 1;
          nx = clamp (x + kx) 0 (width - 1);
          ny = clamp (y + ky) 0 (height - 1);
          weight = arrGet kern ((ky + radius) * kernelSize + (kx + radius))
      in (total + arrGet data (coordToIndex nx ny width) * weight, weightSum + weight))"

definition blurCell :: "real list \<Rightarrow> int \<Rightarrow> int \<Rightarrow> int \<Rightarrow> real list \<Rightarrow> nat \<Rightarrow> nat \<Rightarrow> real" where
  "blurCell data width height radius kern x y =
     (let (total, weightSum) =
            fold (blurStep data width height radius kern (int x) (int y)) (window radius) (0, 0)
      in total / weightSum)"

text \<open>
  The result of \<open>gaussianBlur\<close> is a fresh array of \<open>data.length\<close> zeros in which the
  cells \<open>y * width + x\<close> of the scan are written; a write beyond the array is dropped.
\<close>

definition gaussianBlur :: "real list \<Rightarrow> nat \<Rightarrow> nat \<Rightarrow> int \<Rightarrow> real list" where
  "gaussianBlur data width height radius =
     (let kern = createGaussianKernel radius;
          cells = fillGrid width height (blurCell data (int width) (int height) radius kern)
      in take (length data) cells @ replicate (length data - width * height) 0)"

section \<open>Climate (generation/climate/index.ts)\<close>

record ClimateOptions =
  co_width :: nat
  co_height :: nat
  co_seed :: string
  co_heightmap :: "real list"
  co_seaLevel :: real

definition temperatureCell ::
  "NoiseFunction2D \<Rightarrow> nat \<Rightarrow> nat \<Rightarrow> real list \<Rightarrow> real \<Rightarrow> nat \<Rightarrow> nat \<Rightarrow> real" where
  "temperatureCell noise width height heightmap seaLevel x y =
     (let idx = coordToIndex (int x) (int y) (int width);
          elevation = arrGet heightmap idx;
          latitudeFactor = 1 - \<bar>real y / real height - 0.5\<bar> * 2;
          baseTemp = latitudeFactor * 0.8 + 0.1;
          elevationAboveSea = max 0 (elevation - seaLevel);
          elevationFactor = 1 - elevationAboveSea * 1.5;
          noiseLow = noise (real x / 150) (real y / 150) * 0.15;
          noiseMed = noise (real x / 50 + 500) (real y / 50 + 500) * 0.08;
          noiseValue = noiseLow + noiseMed;
          oceanModeration = (if elevation < seaLevel then 0.5 else 0)
      in clamp (baseTemp * elevationFactor + noiseValue + oceanModeration * 0.2) 0 1)"

definition generateTemperature ::
  "NoiseLib \<Rightarrow> nat \<Rightarrow> nat \<Rightarrow> real list \<Rightarrow> real \<Rightarrow> SeededRandom \<Rightarrow> real list \<times> SeededRandom" where
  "generateTemperature createNoise2D width height heightmap seaLevel rng =
     (let (noise, rng') = createNoise2D rng;
          temperature = fillGrid width height (temperatureCell noise width height heightmap seaLevel)
      in (gaussianBlur temperature width height 3, rng'))"

text \<open>
  The first pass of \<open>generateMoisture\<close>: a fresh array of \<open>width * height\<close> zeros in which
  index \<open>i\<close> is set to 1 for every \<open>i < heightmap.length\<close> with \<open>heightmap[i] < seaLevel\<close>.
\<close>

definition waterMoisture :: "nat \<Rightarrow> nat \<Rightarrow> real list \<Rightarrow> real \<Rightarrow> real list" where
  "waterMoisture width height heightmap seaLevel =
     fold (\<lambda>i moisture. if heightmap ! i < seaLevel then moisture[i := 1] else moisture)
       [0..<length heightmap] (replicate (width * height) 0)"

definition spreadCell :: "int \<Rightarrow> real list \<Rightarrow> real \<Rightarrow> int \<times> int \<Rightarrow> real list \<Rightarrow> real list" where
  "spreadCell width heightmap seaLevel p tempMoisture =
     (let (x, y) = p;
          idx = coordToIndex x y width
      in if arrGet heightmap idx \<ge> seaLevel then
           (let neighbors = [arrGet tempMoisture (coordToIndex (x - 1) y width),
                             arrGet tempMoisture (coordToIndex (x + 1) y width),
                             arrGet tempMoisture (coordToIndex x (y - 1) width),
                             arrGet tempMoisture (coordToIndex x (y + 1) width)];
                maxNeighbor = fold max neighbors (hd neighbors);
                elevation = arrGet heightmap idx;
                elevationPenalty = (if elevation > seaLevel + 0.3 then 0.7 else 0.92)
            in tempMoisture[nat idx := max (arrGet tempMoisture idx) (maxNeighbor * elevationPenalty)])
         else tempMoisture)"

definition moistureCell ::
  "NoiseFunction2D \<Rightarrow> nat \<Rightarrow> real list \<Rightarrow> real list \<Rightarrow> real \<Rightarrow> real list \<Rightarrow> nat \<Rightarrow> nat \<Rightarrow> real" where
  "moistureCell noise width heightmap temperature seaLevel moisture x y =
     (let idx = coordToIndex (int x) (int y) (int width)
      in if arrGet heightmap idx \<ge> seaLevel then
           (let noiseValue = noise (real x / 100) (real y / 100) * 0.2
                             + noise (real x / 50) (real y / 50) * 0.1;
                tempEffect = arrGet temperature idx * 0.15
            in clamp (arrGet moisture idx + noiseValue - tempEffect) 0 1)
         else arrGet moisture idx)"

definition generateMoisture ::
  "NoiseLib \<Rightarrow> nat \<Rightarrow> nat \<Rightarrow> real list \<Rightarrow> real list \<Rightarrow> real \<Rightarrow> SeededRandom \<Rightarrow> real list" where
  "generateMoisture createNoise2D width height heightmap temperature seaLevel rng =
     (let (noise, rng') = createNoise2D rng;
          moisture = waterMoisture width height heightmap seaLevel;
          spreadPasses = 30;
          tempMoisture =
            ((\<lambda>tm. fold (spreadCell (int width) heightmap seaLevel)
                     (interiorCells (int width) (int height)) tm) ^^ spreadPasses) moisture;
          moisture = fillGrid width height
                       (moistureCell noise width heightmap temperature seaLevel tempMoisture)
      in gaussianBlur moisture width height 4)"

definition generateClimate :: "NoiseLib \<Rightarrow> ClimateOptions \<Rightarrow> real list \<times> real list" where
  "generateClimate createNoise2D opts =
     (let rng = newSeededRandom (co_seed opts @ ''_climate'');
          (temperature, rng') =
             generateTemperature createNoise2D (co_width opts) (co_height opts)
               (co_heightmap opts) (co_seaLevel opts) rng;
          moisture = generateMoisture createNoise2D (co_width opts) (co_height opts)
                       (co_heightmap opts) temperature (co_seaLevel opts) rng'
      in (temperature, moisture))"

section \<open>The pipeline (generation/index.ts)\<close>

datatype MapType =
  island | archipelago | peninsula | continent | inland | coastal | isthmus | atoll | delta
  | fjord | great_lake

datatype MapSize = local_size | regional | kingdom | continental

fun MAP_SIZE_CONFIG :: "MapSize \<Rightarrow> int \<times> int" where
  "MAP_SIZE_CONFIG local_size = (256, 256)"
| "MAP_SIZE_CONFIG regional = (512, 512)"
| "MAP_SIZE_CONFIG kingdom = (1024, 1024)"
| "MAP_SIZE_CONFIG continental = (2048, 2048)"

record MapConfig =
  mc_seed :: string
  mc_mapType :: MapType
  mc_mapSize :: MapSize
  mc_width :: int
  mc_height :: int
  mc_seaLevel :: real
  mc_roughness :: real
  mc_waterCoverage :: real
  mc_forestDensity :: real
  mc_settlementDensity :: real

text \<open>\<open>Partial<MapConfig>\<close>: every field may be absent.\<close>

record PartialMapConfig =
  pc_seed :: "string option"
  pc_mapType :: "MapType option"
  pc_mapSize :: "MapSize option"
  pc_width :: "int option"
  pc_height :: "int option"
  pc_seaLevel :: "real option"
  pc_roughness :: "real option"
  pc_waterCoverage :: "real option"
  pc_forestDensity :: "real option"
  pc_settlementDensity :: "real option"

definition DEFAULT_MAP_CONFIG :: MapConfig where
  "DEFAULT_MAP_CONFIG =
     \<lparr>mc_seed = [], mc_mapType = island, mc_mapSize = regional, mc_width = 512, mc_height = 512,
      mc_seaLevel = 0.35, mc_roughness = 0.6, mc_waterCoverage = 0.4, mc_forestDensity = 0.5,
      mc_settlementDensity = 0.3\<rparr>"

text \<open>
  \<open>generateSeed\<close> draws twelve characters with \<open>Math.random\<close>, the only input of the
  pipeline that is not in its arguments. The successive values of \<open>Math.random()\<close>, each
  in \<open>[0, 1)\<close>, are the function \<open>mathRandom\<close>; the index of a character is the
  floor of a product of doubles.
\<close>

definition seedChars :: string where
  "seedChars = ''ABCDEFGHIJKLMNOPQRSTUVWXYZabcdefghijklmnopqrstuvwxyz0123456789''"

definition generateSeed :: "(nat \<Rightarrow> real) \<Rightarrow> string" where
  "generateSeed mathRandom =
     map (\<lambda>i. seedChars ! nat \<lfloor>roundDouble (mathRandom i * real (length seedChars))\<rfloor>) [0..<12]"

text \<open>
  The configuration the stages run on: the defaults overridden by the fields given,
  \<open>seed: options.config.seed || generateSeed()\<close> (an empty string counts as absent),
  and the width and height of the chosen map size written over whatever was given.
\<close>

definition orDefault :: "'a option \<Rightarrow> 'a \<Rightarrow> 'a" where
  "orDefault given dflt = (case given of Some v \<Rightarrow> v | None \<Rightarrow> dflt)"

definition mergeConfig :: "(nat \<Rightarrow> real) \<Rightarrow> PartialMapConfig \<Rightarrow> MapConfig" where
  "mergeConfig mathRandom given =
     (let config =
            \<lparr>mc_seed = (case pc_seed given of
                          Some s \<Rightarrow> (if s \<noteq> [] then s else generateSeed mathRandom)
                        | None \<Rightarrow> generateSeed mathRandom),
             mc_mapType = orDefault (pc_mapType given) (mc_mapType DEFAULT_MAP_CONFIG),
             mc_mapSize = orDefault (pc_mapSize given) (mc_mapSize DEFAULT_MAP_CONFIG),
             mc_width = orDefault (pc_width given) (mc_width DEFAULT_MAP_CONFIG),
             mc_height = orDefault (pc_height given) (mc_height DEFAULT_MAP_CONFIG),
             mc_seaLevel = orDefault (pc_seaLevel given) (mc_seaLevel DEFAULT_MAP_CONFIG),
             mc_roughness = orDefault (pc_roughness given) (mc_roughness DEFAULT_MAP_CONFIG),
             mc_waterCoverage = orDefault (pc_waterCoverage given) (mc_waterCoverage DEFAULT_MAP_CONFIG),
             mc_forestDensity = orDefault (pc_forestDensity given) (mc_forestDensity DEFAULT_MAP_CONFIG),
             mc_settlementDensity =
               orDefault (pc_settlementDensity given) (mc_settlementDensity DEFAULT_MAP_CONFIG)\<rparr>;
          (w, h) = MAP_SIZE_CONFIG (mc_mapSize config)
      in config\<lparr>mc_width := w, mc_height := h\<rparr>)"

record HeightmapOptions =
  ho_width :: int
  ho_height :: int
  ho_seed :: string
  ho_mapType :: MapType
  ho_seaLevel :: real
  ho_roughness :: real
  ho_waterCoverage :: real

record MapData =
  md_config :: MapConfig
  md_heightmap :: "real list"
  md_moisture :: "real list"
  md_temperature :: "real list"
  md_biomes :: "nat list"
  md_rivers :: "River list"
  md_settlements :: "Settlement list"

datatype PipelineError = ConfigurationError

text \<open>
  \<open>generateMap\<close>. Phase 1, \<open>generateHeightmap\<close>, enters as the function that yields the
  synthesised heightmap for its options; the later phases are the definitions above.
  The progress callback only reports; \<open>applyNames\<close> fills the \<open>name\<close> fields of rivers and
  settlements and nothing else, and the names stay empty here. The fields \<open>pois\<close> and
  \<open>roads\<close> of the result are always empty and are left out of \<open>MapData\<close>. The function
  has no \<open>throw\<close>: every run ends in \<open>Inr\<close>.
\<close>

definition generateMap ::
  "NoiseLib \<Rightarrow> (HeightmapOptions \<Rightarrow> real list) \<Rightarrow> (nat \<Rightarrow> real) \<Rightarrow> PartialMapConfig \<Rightarrow>
   PipelineError + MapData" where
  "generateMap createNoise2D generateHeightmap mathRandom given =
     (let config = mergeConfig mathRandom given;
          w = mc_width config; h = mc_height config;
          heightmap = generateHeightmap
                        \<lparr>ho_width = w, ho_height = h, ho_seed = mc_seed config,
                         ho_mapType = mc_mapType config, ho_seaLevel = mc_seaLevel config,
                         ho_roughness = mc_roughness config,
                         ho_waterCoverage = mc_waterCoverage config\<rparr>;
          heightmap = applyErosion heightmap (mc_seed config)
                        (DEFAULT_EROSION_OPTIONS
                           \<lparr>eo_width := w, eo_height := h,
                            eo_iterations := nat \<lfloor>real_of_int (w * h) * 0.1\<rfloor>\<rparr>);
          heightmap = applyThermalErosion heightmap w h 5 0.5;
          (temperature, moisture) =
             generateClimate createNoise2D
               \<lparr>co_width = nat w, co_height = nat h, co_seed = mc_seed config,
                co_heightmap = heightmap, co_seaLevel = mc_seaLevel config\<rparr>;
          biomes = generateBiomes createNoise2D
                     \<lparr>bo_width = nat w, bo_height = nat h, bo_heightmap = heightmap,
                      bo_temperature = temperature, bo_moisture = moisture,
                      bo_seaLevel = mc_seaLevel config, bo_seed = mc_seed config\<rparr>;
          riverCount = nat (w div 50);
          rivers = generateRivers
                     \<lparr>ro_width = nat w, ro_height = nat h, ro_seed = mc_seed config,
                      ro_heightmap = heightmap, ro_moisture = moisture,
                      ro_seaLevel = mc_seaLevel config, ro_riverCount = riverCount,
                      ro_minRiverLength = 15\<rparr>;
          heightmap = carveRiversIntoHeightmap heightmap rivers w 0.02;
          settlements = generateSettlements
                          \<lparr>so_width = nat w, so_height = nat h, so_seed = mc_seed config,
                           so_heightmap = heightmap, so_moisture = moisture, so_biomes = biomes,
                           so_rivers = rivers, so_seaLevel = mc_seaLevel config,
                           so_density = mc_settlementDensity config\<rparr>
      in Inr \<lparr>md_config = config, md_heightmap = heightmap, md_moisture = moisture,
              md_temperature = temperature, md_biomes = biomes, md_rivers = rivers,
              md_settlements = settlements\<rparr>)"


text \<open>All values of a grid lie in \<open>[0, 1]\<close>.\<close>

definition unitRange :: "real list \<Rightarrow> bool" where
  "unitRange xs \<longleftrightarrow> (\<forall>v\<in>set xs. 0 \<le> v \<and> v \<le> 1)"

text \<open>
  Stand-ins for concrete runs of the pipeline: a noise library whose noise is 0
  everywhere, a phase 1 that yields a flat heightmap of the size asked for, two streams
  of \<open>Math.random\<close> values (all 0, all 0.5), and three configurations: one with the seed \<open>alpha\<close>, one with an empty seed, and one with a sea
  level of 2 and a width of -5.
\<close>

definition flatNoise :: NoiseLib where
  "flatNoise rng = (\<lambda>x y. 0, rng)"

definition flatHeightmap :: "HeightmapOptions \<Rightarrow> real list" where
  "flatHeightmap opts = replicate (nat (ho_width opts * ho_height opts)) 0"

definition zeroRandom :: "nat \<Rightarrow> real" where
  "zeroRandom i = 0"

definition halfRandom :: "nat \<Rightarrow> real" where
  "halfRandom i = 1 / 2"

definition noneGiven :: PartialMapConfig where
  "noneGiven =
     \<lparr>pc_seed = None, pc_mapType = None, pc_mapSize = None, pc_width = None, pc_height = None,
      pc_seaLevel = None, pc_roughness = None, pc_waterCoverage = None, pc_forestDensity = None,
      pc_settlementDensity = None\<rparr>"

definition alphaGiven :: PartialMapConfig where
  "alphaGiven = noneGiven\<lparr>pc_seed := Some ''alpha'', pc_mapSize := Some local_size\<rparr>"

definition emptySeedGiven :: PartialMapConfig where
  "emptySeedGiven = noneGiven\<lparr>pc_seed := Some []\<rparr>"


definition alphaMap :: MapData where
  "alphaMap = projr (generateMap flatNoise flatHeightmap zeroRandom alphaGiven)"


section \<open>Properties of grids\<close>

lemma length_concat_rows:
  "length (concat (map (\<lambda>y. map (\<lambda>x. cell x y) [0..<w]) ys)) = w * length ys"
  by (induction ys) simp_all

lemma length_fillGrid [simp]: "length (fillGrid w h cell) = w * h"
  by (simp add: fillGrid_def length_concat_rows)

lemma set_fillGrid: "set (fillGrid w h cell) = {cell x y | x y. x < w \<and> y < h}"
  by (fastforce simp: fillGrid_def)

lemma nth_concat_rows:
  "x < w \<Longrightarrow> y < h \<Longrightarrow>
   concat (map (\<lambda>y. map (\<lambda>x. cell x y) [0..<w]) [0..<h]) ! (y * w + x) = cell x y"
proof (induction h)
  case 0
  then show ?case by simp
next
  case (Suc h)
  let ?rows = "concat (map (\<lambda>y. map (\<lambda>x. cell x y) [0..<w]) [0..<h])"
  have len: "length ?rows = w * h"
    using length_concat_rows [of cell w "[0..<h]"] by simp
  show ?case
  proof (cases "y < h")
    case True
    then have "y * w + x < w * h"
    proof -
      have "y * w + x < y * w + w" using Suc.prems by simp
      also have "\<dots> = (Suc y) * w" by simp
      also have "\<dots> \<le> h * w" using True by (intro mult_le_mono1) simp
      finally show ?thesis by (simp add: mult.commute)
    qed
    then show ?thesis using Suc True len by (simp add: nth_append)
  next
    case False
    then have "y = h" using Suc.prems by simp
    then show ?thesis using Suc.prems len by (simp add: nth_append mult.commute)
  qed
qed

lemma nth_fillGrid: "x < w \<Longrightarrow> y < h \<Longrightarrow> fillGrid w h cell ! (y * w + x) = cell x y"
  by (simp add: fillGrid_def nth_concat_rows)

lemma get_fillGrid:
  "x < w \<Longrightarrow> y < h \<Longrightarrow> arrGet (fillGrid w h cell) (coordToIndex (int x) (int y) (int w)) = cell x y"
proof -
  assume a: "x < w" "y < h"
  have "nat (int y * int w + int x) = y * w + x"
    by (metis nat_int of_nat_add of_nat_mult)
  then show ?thesis using a by (simp add: arrGet_def coordToIndex_def nth_fillGrid)
qed

section \<open>The classifier\<close>

lemma classifyBiome_le_9: "classifyBiome e t m s b ml sl \<le> 9"
  by (simp add: classifyBiome_def)

lemma classifyBiome_ocean_iff: "classifyBiome e t m s b ml sl = 0 \<longleftrightarrow> e < s"
  by (simp add: classifyBiome_def)



section \<open>Evaluating the generator and the loops on numerals\<close>

text \<open>
  \<open>rngNext\<close> on the unsigned values of the two state words: the same computation
  with the reductions modulo \<open>2^32\<close> written out.
\<close>

lemma rngNext_eval:
  "rngNext (x, y) =
     (let a = uint x; b = uint y;
          s1 = a XOR ((a * 8388608) mod 4294967296);
          s1 = s1 XOR (s1 div 131072);
          s1 = s1 XOR b;
          s1 = s1 XOR (b div 67108864)
      in (real_of_int ((b + s1) mod 4294967296) / 4294967296, (y, word_of_int s1)))"
proof -
  define t1 where "t1 = x XOR push_bit 23 x"
  define t2 where "t2 = t1 XOR drop_bit 17 t1"
  define t3 where "t3 = t2 XOR y"
  define t4 where "t4 = t3 XOR drop_bit 26 y"
  have u1: "uint t1 = uint x XOR ((uint x * 8388608) mod 4294967296)"
    unfolding t1_def uint_xor by (simp add: push_bit_eq_mult uint_word_ariths)
  have u2: "uint t2 = uint t1 XOR (uint t1 div 131072)"
    unfolding t2_def uint_xor by (simp add: drop_bit_eq_div uint_div)
  have u3: "uint t3 = uint t2 XOR uint y"
    unfolding t3_def uint_xor by simp
  have u4: "uint t4 = uint t3 XOR (uint y div 67108864)"
    unfolding t4_def uint_xor by (simp add: drop_bit_eq_div uint_div)
  have r: "rngNext (x, y) = (real_of_int (uint (y + t4)) / 4294967296, (y, t4))"
    by (simp add: rngNext_def Let_def t1_def t2_def t3_def t4_def)
  have s: "uint (y + t4) = (uint y + uint t4) mod 4294967296"
    by (simp add: uint_word_ariths)
  have w: "t4 = word_of_int (uint t4)" by simp
  show ?thesis
    unfolding r s Let_def u1 [symmetric] u2 [symmetric] u3 [symmetric] u4 [symmetric]
    using w by simp
qed

lemma shuffleFrom_numeral:
  "shuffleFrom (numeral k) xs st =
     (let (j, st') = rngInt 0 (int (numeral k)) st;
          xi = xs ! numeral k; xj = arrGet xs j
      in shuffleFrom (pred_numeral k) (xs[numeral k := xj, nat j := xi]) st')"
  by (simp add: numeral_eq_Suc)

lemma traceLoop_numeral:
  "traceLoop (numeral k) width height heightmap seaLevel usedCells x y lastIdx segments rng =
     (let intX = \<lfloor>x\<rfloor>; intY = \<lfloor>y\<rfloor>
      in if intX < 1 \<or> intX \<ge> width - 1 \<or> intY < 1 \<or> intY \<ge> height - 1 then (segments, rng)
         else (let idx = coordToIndex intX intY width;
                   elevation = arrGet heightmap idx
               in if elevation < seaLevel then (segments @ [newSegment x y], rng)
                  else if idx \<in> usedCells \<and> idx \<noteq> lastIdx then (segments, rng)
                  else (let segments' = segments @ [newSegment x y];
                            ((nextX, nextY), rng1) =
                               findSteepestDescent intX intY width height heightmap rng
                        in if nextX = intX \<and> nextY = intY then
                             (case escapeLocalMinimum intX intY width height heightmap seaLevel of
                                Some (ex, ey) \<Rightarrow>
                                  traceLoop (pred_numeral k) width height heightmap seaLevel usedCells
                                    (real_of_int ex) (real_of_int ey) idx segments' rng1
                              | None \<Rightarrow> (segments', rng1))
                           else (let (r1, rng2) = rngNext rng1;
                                     (r2, rng3) = rngNext rng2
                                 in traceLoop (pred_numeral k) width height heightmap seaLevel usedCells
                                      (real_of_int nextX + (r1 - 0.5) * 0.3)
                                      (real_of_int nextY + (r2 - 0.5) * 0.3)
                                      idx segments' rng3))))"
  by (simp add: numeral_eq_Suc)

lemma arrGet_replicate: "0 \<le> i \<Longrightarrow> i < int n \<Longrightarrow> arrGet (replicate n v) i = v"
  by (simp add: arrGet_def)

lemma arrGet_Cons: "arrGet (x # xs) i = (if i \<le> 0 then x else arrGet xs (i - 1))"
  by (simp add: arrGet_def nat_diff_distrib' nth_Cons')

lemma arrGet_fillGrid_index:
  assumes "0 \<le> i" and "i < int w * int h"
  shows "arrGet (fillGrid w h cell) i = cell (nat i mod w) (nat i div w)"
proof -
  have w: "0 < w" using assms by (cases w) auto
  have "nat i < w * h" using assms by (metis nat_less_iff of_nat_mult)
  then have "nat i div w < h" using w by (simp add: less_mult_imp_div_less mult.commute)
  moreover have "nat i mod w < w" using w by simp
  ultimately have "fillGrid w h cell ! (nat i div w * w + nat i mod w) = cell (nat i mod w) (nat i div w)"
    by (intro nth_fillGrid)
  then show ?thesis by (simp add: arrGet_def)
qed


section \<open>Rivers: cells claimed by more than one river\<close>


lemma tracedOK_all:
  "\<forall>s\<in>set S. segmentCell w s \<notin> used \<and> 0 < segmentCell w s \<Longrightarrow> tracedOK w hm sea used S"
  unfolding tracedOK_def by (rule exI [of _ S], rule exI [of _ "[]"]) simp

lemma tracedOK_snoc:
  "\<forall>s\<in>set S. segmentCell w s \<notin> used \<and> 0 < segmentCell w s \<Longrightarrow>
   arrGet hm (segmentCell w t) < sea \<Longrightarrow> 0 < segmentCell w t \<Longrightarrow> tracedOK w hm sea used (S @ [t])"
  unfolding tracedOK_def by (rule exI [of _ S], rule exI [of _ "[t]"]) simp

lemma cell_pos:
  assumes "1 \<le> ix" "ix < w - 1" "1 \<le> iy"
  shows "0 < coordToIndex ix iy w"
proof -
  have "0 \<le> w" using assms by simp
  then have "1 * w \<le> iy * w" using assms(3) by (intro mult_right_mono) simp_all
  then have "w \<le> iy * w" by simp
  with assms show ?thesis unfolding coordToIndex_def by linarith
qed

lemma segmentCell_newSegment [simp]:
  "segmentCell w (newSegment x y) = coordToIndex \<lfloor>x\<rfloor> \<lfloor>y\<rfloor> w"
  by (simp add: segmentCell_def newSegment_def)

lemma traceLoop_tracedOK:
  assumes "\<forall>s\<in>set segs. segmentCell w s \<notin> used \<and> 0 < segmentCell w s"
      and "lastIdx \<notin> used"
  shows "tracedOK w hm sea used (fst (traceLoop n w h hm sea used x y lastIdx segs rng))"
  using assms
proof (induction n arbitrary: x y lastIdx segs rng)
  case 0
  then show ?case by (simp add: tracedOK_all Let_def)
next
  case (Suc n)
  let ?idx = "coordToIndex \<lfloor>x\<rfloor> \<lfloor>y\<rfloor> w"
  let ?segs' = "segs @ [newSegment x y]"
  show ?case
  proof (cases "\<lfloor>x\<rfloor> < 1 \<or> \<lfloor>x\<rfloor> \<ge> w - 1 \<or> \<lfloor>y\<rfloor> < 1 \<or> \<lfloor>y\<rfloor> \<ge> h - 1")
    case True
    then show ?thesis using Suc.prems by (simp add: tracedOK_all Let_def)
  next
    case inb: False
    then have pos: "0 < ?idx" by (intro cell_pos) simp_all
    show ?thesis
    proof (cases "arrGet hm ?idx < sea")
      case True
      then show ?thesis using inb Suc.prems pos by (simp add: tracedOK_snoc Let_def)
    next
      case land: False
      show ?thesis
      proof (cases "?idx \<in> used \<and> ?idx \<noteq> lastIdx")
        case True
        then show ?thesis using inb land Suc.prems by (simp add: tracedOK_all Let_def)
      next
        case False
        with Suc.prems(2) have fresh: "?idx \<notin> used" by auto
        have inv: "\<forall>s\<in>set ?segs'. segmentCell w s \<notin> used \<and> 0 < segmentCell w s"
          using Suc.prems(1) fresh pos by simp
        obtain nextX nextY rng1 where
          fsd: "findSteepestDescent \<lfloor>x\<rfloor> \<lfloor>y\<rfloor> w h hm rng = ((nextX, nextY), rng1)"
          by (metis prod.collapse)
        show ?thesis
        proof (cases "nextX = \<lfloor>x\<rfloor> \<and> nextY = \<lfloor>y\<rfloor>")
          case stuck: True
          show ?thesis
          proof (cases "escapeLocalMinimum \<lfloor>x\<rfloor> \<lfloor>y\<rfloor> w h hm sea")
            case None
            then show ?thesis using inb land fresh fsd stuck inv by (simp add: tracedOK_all Let_def)
          next
            case (Some e)
            obtain ex ey where e: "e = (ex, ey)" by (cases e)
            have "tracedOK w hm sea used
                    (fst (traceLoop n w h hm sea used (real_of_int ex) (real_of_int ey) ?idx ?segs' rng1))"
              by (rule Suc.IH [OF inv fresh])
            then show ?thesis using inb land fresh fsd stuck Some e by (simp add: Let_def)
          qed
        next
          case moving: False
          obtain r1 rng2 where n1: "rngNext rng1 = (r1, rng2)" by (cases "rngNext rng1")
          obtain r2 rng3 where n2: "rngNext rng2 = (r2, rng3)" by (cases "rngNext rng2")
          have "tracedOK w hm sea used
                  (fst (traceLoop n w h hm sea used (real_of_int nextX + (r1 - 0.5) * 0.3)
                          (real_of_int nextY + (r2 - 0.5) * 0.3) ?idx ?segs' rng3))"
            by (rule Suc.IH [OF inv fresh])
          then show ?thesis using inb land fresh fsd moving n1 n2 by (auto simp add: Let_def)
        qed
      qed
    qed
  qed
qed


lemma tracedOK_used:
  assumes "tracedOK w hm sea used S" "s \<in> set S" "segmentCell w s \<in> used"
  shows "arrGet hm (segmentCell w s) < sea"
  using assms unfolding tracedOK_def by auto

lemma tracedOK_pos:
  assumes "tracedOK w hm sea used S" "s \<in> set S"
  shows "0 < segmentCell w s"
  using assms unfolding tracedOK_def by auto

lemma traceRiver_tracedOK:
  assumes "-1 \<notin> used"
  shows "tracedOK w hm sea used (river_segments (fst (traceRiver sx sy w h hm sea used rng)))"
proof -
  have "tracedOK w hm sea used
          (fst (traceLoop (nat (w + h)) w h hm sea used (real_of_int sx) (real_of_int sy) (-1) [] rng))"
    by (rule traceLoop_tracedOK) (use assms in simp_all)
  then show ?thesis by (simp add: traceRiver_def case_prod_beta)
qed

lemma fold_insert_cells:
  "fold (\<lambda>seg used. insert (segmentCell w seg) used) segs used = used \<union> segmentCell w ` set segs"
  by (induction segs arbitrary: used) auto

lemma sharedBelowSea_snoc:
  assumes "sharedBelowSea w hm sea rivers"
      and "\<forall>r\<in>set rivers. riverCells w r \<subseteq> used"
      and "tracedOK w hm sea used (river_segments r')"
  shows "sharedBelowSea w hm sea (rivers @ [r'])"
  unfolding sharedBelowSea_def
proof (intro allI impI)
  fix i j c
  assume a: "i < j \<and> j < length (rivers @ [r']) \<and> c \<in> riverCells w ((rivers @ [r']) ! i)
             \<and> c \<in> riverCells w ((rivers @ [r']) ! j)"
  show "arrGet hm c < sea"
  proof (cases "j < length rivers")
    case True
    with a assms(1) show ?thesis unfolding sharedBelowSea_def by (auto simp: nth_append)
  next
    case False
    with a have j: "j = length rivers" and i: "i < length rivers" by simp_all
    from a i have "c \<in> riverCells w (rivers ! i)" by (simp add: nth_append)
    with assms(2) i have cu: "c \<in> used" by (meson nth_mem subsetD)
    from a j have "c \<in> riverCells w r'" by simp
    then obtain s where s: "s \<in> set (river_segments r')" "c = segmentCell w s"
      unfolding riverCells_def by auto
    with cu tracedOK_used [OF assms(3)] show ?thesis by simp
  qed
qed

lemma riversLoop_shared:
  assumes "sharedBelowSea (int (ro_width opts)) (ro_heightmap opts) (ro_seaLevel opts) rivers"
      and "\<forall>r\<in>set rivers. riverCells (int (ro_width opts)) r \<subseteq> used"
      and "-1 \<notin> used"
  shows "sharedBelowSea (int (ro_width opts)) (ro_heightmap opts) (ro_seaLevel opts)
           (riversLoop opts sources rivers used rng)"
  using assms
proof (induction sources arbitrary: rivers used rng)
  case Nil
  then show ?case by simp
next
  case (Cons src sources)
  obtain sx sy score where src: "src = (sx, sy, score)" by (cases src)
  let ?w = "int (ro_width opts)"
  let ?t = "traceRiver sx sy ?w (int (ro_height opts)) (ro_heightmap opts) (ro_seaLevel opts) used rng"
  obtain river rng1 where t: "?t = (river, rng1)" by (cases ?t)
  have ok: "tracedOK ?w (ro_heightmap opts) (ro_seaLevel opts) used (river_segments river)"
    using traceRiver_tracedOK [OF Cons.prems(3), of ?w "ro_heightmap opts" "ro_seaLevel opts" sx sy "int (ro_height opts)" rng] t
    by simp
  show ?case
  proof (cases "length rivers \<ge> ro_riverCount opts")
    case True
    then show ?thesis using Cons.prems src by simp
  next
    case more: False
    show ?thesis
    proof (cases "length (river_segments river) \<ge> ro_minRiverLength opts")
      case False
      then show ?thesis using more src t Cons.IH [OF Cons.prems] by simp
    next
      case True
      obtain newId rng2 where u: "uuid rng1 = (newId, rng2)" by (cases "uuid rng1")
      let ?r' = "river\<lparr>river_id := newId, river_name := []\<rparr>"
      let ?used' = "used \<union> segmentCell ?w ` set (river_segments river)"
      have 1: "sharedBelowSea ?w (ro_heightmap opts) (ro_seaLevel opts) (rivers @ [?r'])"
        by (rule sharedBelowSea_snoc [OF Cons.prems(1) Cons.prems(2)]) (use ok in simp)
      have 2: "\<forall>r\<in>set (rivers @ [?r']). riverCells ?w r \<subseteq> ?used'"
        using Cons.prems(2) by (auto simp: riverCells_def)
      have 3: "-1 \<notin> ?used'"
        using Cons.prems(3) tracedOK_pos [OF ok] by force
      have "sharedBelowSea ?w (ro_heightmap opts) (ro_seaLevel opts)
              (riversLoop opts sources (rivers @ [?r']) ?used' rng2)"
        by (rule Cons.IH [OF 1 2 3])
      then show ?thesis using more True src t u by (simp add: fold_insert_cells)
    qed
  qed
qed

lemma riverCells_calculateRiverFlow [simp]:
  "riverCells w (calculateRiverFlow r) = riverCells w r"
proof -
  have "map (segmentCell w) (map (\<lambda>(i, seg). seg\<lparr>seg_flow := f i\<rparr>) (enumerate n segs))
        = map (segmentCell w) segs" for f :: "nat \<Rightarrow> real" and n segs
    by (induction segs arbitrary: n) (simp_all add: segmentCell_def)
  from this [of "\<lambda>i. 0.3 + (real i / real (length (river_segments r))) * 0.7" 0 "river_segments r"]
  have "set (map (segmentCell w) (river_segments (calculateRiverFlow r)))
        = set (map (segmentCell w) (river_segments r))"
    by (simp add: calculateRiverFlow_def Let_def)
  then show ?thesis unfolding riverCells_def by simp
qed

lemma generateRivers_shared:
  "sharedBelowSea (int (ro_width opts)) (ro_heightmap opts) (ro_seaLevel opts) (generateRivers opts)"
proof -
  obtain sources rng' where
    "findRiverSources (int (ro_width opts)) (int (ro_height opts)) (ro_heightmap opts)
       (ro_moisture opts) (ro_seaLevel opts) (newSeededRandom (ro_seed opts @ ''_rivers''))
       (ro_riverCount opts * 3) = (sources, rng')"
    by (metis prod.collapse)
  then have g: "generateRivers opts = map calculateRiverFlow (riversLoop opts sources [] {} rng')"
    by (simp add: generateRivers_def)
  have base: "sharedBelowSea (int (ro_width opts)) (ro_heightmap opts) (ro_seaLevel opts)
          (riversLoop opts sources [] {} rng')"
    by (rule riversLoop_shared) (simp_all add: sharedBelowSea_def)
  show ?thesis
    unfolding g sharedBelowSea_def
  proof (intro allI impI, elim conjE)
    fix i j c
    let ?rs = "riversLoop opts sources [] {} rng'"
    assume a: "i < j" "j < length (map calculateRiverFlow ?rs)"
      "c \<in> riverCells (int (ro_width opts)) (map calculateRiverFlow ?rs ! i)"
      "c \<in> riverCells (int (ro_width opts)) (map calculateRiverFlow ?rs ! j)"
    then have "i < length ?rs" "j < length ?rs" by simp_all
    with a have "c \<in> riverCells (int (ro_width opts)) (?rs ! i)"
      "c \<in> riverCells (int (ro_width opts)) (?rs ! j)" by simp_all
    with a base show "arrGet (ro_heightmap opts) c < ro_seaLevel opts"
      unfolding sharedBelowSea_def by auto
  qed
qed


section \<open>A concrete run of the river tracer\<close>

lemma seed_d_rivers: "newSeededRandom ''d_rivers'' = (3457500427, 1273061719)"
  by (simp add: newSeededRandom_def charCodeAt_def)

text \<open>
  On the cone map with seed \<open>d\<close> two rivers are kept. The first starts at \<open>(8, 4)\<close>, the
  second at \<open>(4, 4)\<close>; both end in cell 58, which is \<open>(6, 4)\<close>. Each segment is shown as
  its cell and its flow.
\<close>

lemma cone_rivers:
  "map (\<lambda>r. map (\<lambda>s. (segmentCell 13 s, seg_flow s)) (river_segments r)) (generateRivers coneOptions)
   = [[(60, 3 / 10), (59, 8 / 15), (58, 23 / 30)],
      [(56, 3 / 10), (57, 19 / 40), (44, 13 / 20), (58, 33 / 40)]]"
  by (simp add: generateRivers_def coneOptions_def seed_d_rivers findRiverSources_def sourceStep_def
        strideFrom.simps traceRiver_def traceLoop_numeral findSteepestDescent_def descentStep_def
        shuffle_def shuffleFrom_numeral neighbors8_def rngInt_def rngRange_def rngNext_eval
        arrGet_Cons arrGet_fillGrid_index arrGet_replicate coneHeight_def coordToIndex_def Let_def
        newSegment_def uuid_def hexDigit_def calculateRiverFlow_def segmentCell_def
      cong: prod.case_cong_weak let_weak_cong)

lemma cone_rivers_length: "length (generateRivers coneOptions) = 2"
  using arg_cong [OF cone_rivers, of length] by simp

lemma cone_river_0:
  "map (\<lambda>s. (segmentCell 13 s, seg_flow s)) (river_segments (generateRivers coneOptions ! 0))
   = [(60, 3 / 10), (59, 8 / 15), (58, 23 / 30)]"
  using arg_cong [OF cone_rivers, of "\<lambda>xs. xs ! 0"] cone_rivers_length by (simp add: nth_map)

lemma cone_river_1:
  "map (\<lambda>s. (segmentCell 13 s, seg_flow s)) (river_segments (generateRivers coneOptions ! 1))
   = [(56, 3 / 10), (57, 19 / 40), (44, 13 / 20), (58, 33 / 40)]"
  using arg_cong [OF cone_rivers, of "\<lambda>xs. xs ! 1"] cone_rivers_length by (simp add: nth_map)

lemma riverCells_fst:
  "riverCells w r = fst ` set (map (\<lambda>s. (segmentCell w s, seg_flow s)) (river_segments r))"
  by (force simp: riverCells_def)

lemma cone_cells_0: "riverCells 13 (generateRivers coneOptions ! 0) = {60, 59, 58}"
  unfolding riverCells_fst cone_river_0 by simp

lemma cone_cells_1: "riverCells 13 (generateRivers coneOptions ! 1) = {56, 57, 44, 58}"
  unfolding riverCells_fst cone_river_1 by simp

section \<open>Claims about rivers\<close>

text \<open>
  Claim C6, as stated: no two accepted rivers claim the same grid cell. The tracer tests
  for the sea before it tests \<open>usedCells\<close>, so a river that reaches a cell below sea level
  records it and stops there even when an earlier river already ends in it. On the cone
  map the two rivers returned both cover cell 58: their cell sets are not disjoint.
\<close>

theorem rivers_share_cell_counterexample:
  "length (generateRivers coneOptions) = 2
   \<and> riverCells 13 (generateRivers coneOptions ! 0) \<inter> riverCells 13 (generateRivers coneOptions ! 1) \<noteq> {}"
  unfolding cone_rivers_length cone_cells_0 cone_cells_1 by simp

text \<open>
  Claim C6, amended: two distinct rivers of the list returned by \<open>generateRivers\<close> share no
  cell at or above sea level. Every cell covered by both lies below the sea level (on the
  heightmap the tracer read): it is the ocean cell in which the later river ends.
\<close>

theorem rivers_share_only_cells_below_sea:
  assumes "i < length (generateRivers opts)" and "j < length (generateRivers opts)" and "i \<noteq> j"
      and "c \<in> riverCells (int (ro_width opts)) (generateRivers opts ! i)"
      and "c \<in> riverCells (int (ro_width opts)) (generateRivers opts ! j)"
  shows "arrGet (ro_heightmap opts) c < ro_seaLevel opts"
proof (cases "i < j")
  case True
  with assms generateRivers_shared [of opts] show ?thesis
    unfolding sharedBelowSea_def by blast
next
  case False
  with assms have "j < i" by simp
  with assms generateRivers_shared [of opts] show ?thesis
    unfolding sharedBelowSea_def by blast
qed



theorem rivers_share_only_cells_below_sea_witness:
  "0 < length (generateRivers coneOptions) \<and> 1 < length (generateRivers coneOptions) \<and> (0::nat) \<noteq> 1
   \<and> 58 \<in> riverCells (int (ro_width coneOptions)) (generateRivers coneOptions ! 0)
   \<and> 58 \<in> riverCells (int (ro_width coneOptions)) (generateRivers coneOptions ! 1)
   \<and> arrGet (ro_heightmap coneOptions) 58 < ro_seaLevel coneOptions"
proof -
  have w: "int (ro_width coneOptions) = 13" by (simp add: coneOptions_def)
  have a: "58 \<in> riverCells (int (ro_width coneOptions)) (generateRivers coneOptions ! 0)"
    unfolding w cone_cells_0 by simp
  have b: "58 \<in> riverCells (int (ro_width coneOptions)) (generateRivers coneOptions ! 1)"
    unfolding w cone_cells_1 by simp
  have l0: "0 < length (generateRivers coneOptions)" and l1: "1 < length (generateRivers coneOptions)"
    by (simp_all add: cone_rivers_length)
  have "arrGet (ro_heightmap coneOptions) 58 < ro_seaLevel coneOptions"
    using rivers_share_only_cells_below_sea [of 0 coneOptions 1 58, OF l0 l1 _ a b] by simp
  with a b l0 l1 show ?thesis by simp
qed


lemma ramp_last:
  assumes "0 < n"
  shows "0.3 + 0.7 * (real (n - 1) / real n) = 1 - 0.7 / real n"
proof -
  obtain m where n: "n = Suc m" using assms by (cases n) auto
  show ?thesis unfolding n by (simp add: field_simps)
qed

lemma ramp_bounds:
  assumes "i < n"
  shows "0.3 \<le> 0.3 + 0.7 * (real i / real n)" "0.3 + 0.7 * (real i / real n) < 1"
proof -
  have "0 \<le> real i / real n" by simp
  then show "0.3 \<le> 0.3 + 0.7 * (real i / real n)" by simp
  have "real i / real n < 1" using assms by simp
  then show "0.3 + 0.7 * (real i / real n) < 1" by simp
qed

lemma calculateRiverFlow_length [simp]:
  "length (river_segments (calculateRiverFlow r)) = length (river_segments r)"
  by (simp add: calculateRiverFlow_def Let_def)

lemma calculateRiverFlow_nth:
  assumes "i < length (river_segments r)"
  shows "seg_flow (river_segments (calculateRiverFlow r) ! i)
         = 0.3 + (real i / real (length (river_segments r))) * 0.7"
  using assms by (simp add: calculateRiverFlow_def Let_def nth_enumerate_eq)

lemma generateRivers_flow:
  assumes "r \<in> set (generateRivers opts)"
  obtains r0 where "r = calculateRiverFlow r0"
  using assms by (auto simp: generateRivers_def Let_def split: prod.splits)

text \<open>
  Claim C7, as stated: the flow values of an accepted river ramp from 0.3 at the source to
  1.0 at the final segment. The loop sets \<open>flow = 0.3 + (i / length) * 0.7\<close> for
  \<open>i < length\<close>, so the final segment gets \<open>1 - 0.7 / length\<close>. On the cone map the
  first river has three segments and its final segment has flow 23/30, not 1.
\<close>

theorem river_flow_mouth_counterexample:
  "generateRivers coneOptions \<noteq> []
   \<and> seg_flow (last (river_segments (generateRivers coneOptions ! 0))) = 23 / 30
   \<and> seg_flow (last (river_segments (generateRivers coneOptions ! 0))) \<noteq> 1"
proof -
  have "map snd (map (\<lambda>s. (segmentCell 13 s, seg_flow s)) (river_segments (generateRivers coneOptions ! 0)))
        = [3 / 10, 8 / 15, 23 / 30]"
    unfolding cone_river_0 by simp
  then have f: "map seg_flow (river_segments (generateRivers coneOptions ! 0)) = [3 / 10, 8 / 15, 23 / 30]"
    by (simp add: comp_def)
  then have ne: "river_segments (generateRivers coneOptions ! 0) \<noteq> []" by auto
  have "seg_flow (last (river_segments (generateRivers coneOptions ! 0)))
        = last (map seg_flow (river_segments (generateRivers coneOptions ! 0)))"
    using ne by (simp add: last_map)
  then have "seg_flow (last (river_segments (generateRivers coneOptions ! 0))) = 23 / 30"
    unfolding f by simp
  moreover have "generateRivers coneOptions \<noteq> []"
    using cone_rivers_length by auto
  ultimately show ?thesis by simp
qed

text \<open>
  Claim C7, amended: for every river returned by \<open>generateRivers\<close> with \<open>n\<close> segments,
  segment \<open>i\<close> (counted from 0 at the source) has flow \<open>0.3 + 0.7 * i / n\<close>: a linear ramp
  that starts at 0.3 and stays strictly below 1.0, the final segment having
  \<open>1 - 0.7 / n\<close>. Every flow value lies in \<open>[0.3, 1)\<close>, hence in \<open>(0, 1]\<close>.
\<close>

theorem river_flow_ramp:
  assumes "r \<in> set (generateRivers opts)" and "i < length (river_segments r)"
  shows "seg_flow (river_segments r ! i) = 0.3 + 0.7 * (real i / real (length (river_segments r)))
         \<and> 0.3 \<le> seg_flow (river_segments r ! i)
         \<and> seg_flow (river_segments r ! i) < 1
         \<and> seg_flow (river_segments r ! (length (river_segments r) - 1))
             = 1 - 0.7 / real (length (river_segments r))"
proof -
  obtain r0 where r: "r = calculateRiverFlow r0" using assms(1) by (rule generateRivers_flow)
  let ?n = "length (river_segments r)"
  have n0: "0 < ?n" using assms(2) by linarith
  have f: "seg_flow (river_segments r ! k) = 0.3 + 0.7 * (real k / real ?n)" if "k < ?n" for k
    using that calculateRiverFlow_nth [of k r0] by (simp add: r)
  have fi: "seg_flow (river_segments r ! i) = 0.3 + 0.7 * (real i / real ?n)"
    by (rule f [OF assms(2)])
  have "?n - 1 < ?n" using n0 by linarith
  then have "seg_flow (river_segments r ! (?n - 1)) = 0.3 + 0.7 * (real (?n - 1) / real ?n)"
    by (rule f)
  then have l: "seg_flow (river_segments r ! (?n - 1)) = 1 - 0.7 / real ?n"
    using ramp_last [OF n0] by simp
  show ?thesis
    unfolding fi using ramp_bounds [OF assms(2)] l fi by simp
qed

theorem river_flow_ramp_witness:
  "generateRivers coneOptions ! 0 \<in> set (generateRivers coneOptions)
   \<and> 2 < length (river_segments (generateRivers coneOptions ! 0))
   \<and> seg_flow (river_segments (generateRivers coneOptions ! 0) ! 2) = 23 / 30
   \<and> seg_flow (river_segments (generateRivers coneOptions ! 0) ! 2) < 1"
proof -
  have m: "generateRivers coneOptions ! 0 \<in> set (generateRivers coneOptions)"
    using cone_rivers_length by simp
  have "length (map (\<lambda>s. (segmentCell 13 s, seg_flow s)) (river_segments (generateRivers coneOptions ! 0))) = 3"
    unfolding cone_river_0 by simp
  then have l: "length (river_segments (generateRivers coneOptions ! 0)) = 3" by simp
  then have i: "2 < length (river_segments (generateRivers coneOptions ! 0))" by simp
  show ?thesis
    using river_flow_ramp [OF m i] m i l by simp
qed


section \<open>Settlements: how many are placed\<close>


lemma settlementCount_bounds: "3 \<le> settlementCount opts \<and> settlementCount opts \<le> 100"
  by (simp add: settlementCount_def Let_def)

lemma placeLoop_length:
  assumes "int (length settlements) \<le> settlementCount opts"
  shows "int (length (placeLoop n opts suitability minDistance settlements placedPositions rng))
         \<le> settlementCount opts"
  using assms
proof (induction n arbitrary: settlements placedPositions rng)
  case 0
  then show ?case by simp
next
  case (Suc n)
  show ?case
  proof (cases "int (length settlements) < settlementCount opts")
    case False
    then show ?thesis using Suc.prems by simp
  next
    case True
    obtain loc rng1 where f: "findSettlementLocation (int (so_width opts)) (int (so_height opts))
        suitability placedPositions minDistance rng = (loc, rng1)"
      by (metis prod.collapse)
    show ?thesis
    proof (cases loc)
      case None
      then show ?thesis using True f Suc.IH [OF Suc.prems] by simp
    next
      case (Some p)
      obtain lx ly where p: "p = (lx, ly)" by (cases p)
      have "int (length (settlements @ [s])) \<le> settlementCount opts" for s
        using True by simp
      then show ?thesis using True f Some p Suc.IH
        by (simp add: Let_def split: prod.splits)
    qed
  qed
qed

lemma generateSettlements_length:
  "int (length (generateSettlements opts)) \<le> settlementCount opts"
proof -
  have "int (length ([] :: Settlement list)) \<le> settlementCount opts"
    using settlementCount_bounds [of opts] by simp
  from placeLoop_length [OF this] show ?thesis
    by (simp add: generateSettlements_def Let_def)
qed

lemma set_strideFrom: "v \<in> set (strideFrom a b s) \<Longrightarrow> a \<le> v \<and> v < b"
proof (induction a b s rule: strideFrom.induct)
  case (1 a b s)
  then show ?case
    by (subst (asm) strideFrom.simps) (auto split: if_splits)
qed

lemma candidates_none:
  assumes "\<And>x y. (x, y) \<in> set points \<Longrightarrow> arrGet suitability (coordToIndex x y width) < 0.3"
  shows "fold (candidateStep width suitability placedPositions minDistance) points [] = []"
  using assms by (induction points) (auto simp: candidateStep_def Let_def)

lemma findSettlementLocation_unsuitable:
  assumes "\<And>x y. x < w \<Longrightarrow> y < h \<Longrightarrow> cell x y < 0.3"
  shows "findSettlementLocation (int w) (int h) (fillGrid w h cell) placedPositions minDistance rng
         = (None, rng)"
proof -
  let ?step = "max 2 (int w div 100)"
  let ?points = "concat (map (\<lambda>y. map (\<lambda>x. (x, y)) (strideFrom ?step (int w - ?step) ?step))
                          (strideFrom ?step (int h - ?step) ?step))"
  have "arrGet (fillGrid w h cell) (coordToIndex x y (int w)) < 0.3" if "(x, y) \<in> set ?points" for x y
  proof -
    from that have "x \<in> set (strideFrom ?step (int w - ?step) ?step)"
      and "y \<in> set (strideFrom ?step (int h - ?step) ?step)" by auto
    then have "0 \<le> x \<and> x < int w" "0 \<le> y \<and> y < int h"
      using set_strideFrom by fastforce+
    then have "nat x < w" "nat y < h" "x = int (nat x)" "y = int (nat y)" by linarith+
    then show ?thesis using get_fillGrid [of "nat x" w "nat y" h cell] assms by metis
  qed
  then have "fold (candidateStep (int w) (fillGrid w h cell) placedPositions minDistance) ?points [] = []"
    by (rule candidates_none)
  then show ?thesis by (simp add: findSettlementLocation_def Let_def)
qed

lemma placeLoop_unsuitable:
  assumes "\<And>x y. x < so_width opts \<Longrightarrow> y < so_height opts \<Longrightarrow> cell x y < 0.3"
  shows "placeLoop n opts (fillGrid (so_width opts) (so_height opts) cell) minDistance
           settlements placedPositions rng = settlements"
proof (induction n)
  case 0
  then show ?case by simp
next
  case (Suc n)
  then show ?case
    using findSettlementLocation_unsuitable [of "so_width opts" "so_height opts" cell, OF assms]
    by simp
qed

lemma oceanOptions_no_settlements: "generateSettlements oceanOptions = []"
proof -
  have "suitabilityCell 256 (replicate 65536 0) (replicate 65536 1) (replicate 65536 0) rp cp x y < 0.3"
    if "x < 256" "y < 256" for x y rp cp
  proof -
    have "int y * 256 + int x < 65536" using that by simp
    then have "arrGet (replicate 65536 (0::nat)) (coordToIndex (int x) (int y) 256) = 0"
      by (simp add: arrGet_def coordToIndex_def nat_less_iff)
    then show ?thesis by (simp add: suitabilityCell_def Let_def BIOME_OCEAN_def)
  qed
  then show ?thesis
    using placeLoop_unsuitable [of oceanOptions]
    by (simp add: generateSettlements_def calculateSuitability_def Let_def oceanOptions_def)
qed


section \<open>Doubles\<close>

text \<open>\<open>floorLog2\<close> is the binary exponent.\<close>

lemma floorLog2_log:
  "0 < x \<Longrightarrow> floorLog2 x = \<lfloor>log 2 x\<rfloor>"
proof (induction x rule: floorLog2.induct)
  case (1 x)
  show ?case
  proof (cases "x < 1")
    case True
    have "log 2 (x * 2) = log 2 x + 1" using 1(3) by (simp add: log_mult)
    then have "\<lfloor>log 2 (x * 2)\<rfloor> = \<lfloor>log 2 x\<rfloor> + 1" by simp
    then show ?thesis using True 1(1) 1(3) by (subst floorLog2.simps) simp
  next
    case False
    show ?thesis
    proof (cases "2 \<le> x")
      case True
      have "log 2 (x / 2) = log 2 x - 1" using 1(3) by (simp add: log_divide)
      then have "\<lfloor>log 2 (x / 2)\<rfloor> = \<lfloor>log 2 x\<rfloor> - 1" by simp
      then show ?thesis using True False 1(2) 1(3) by (subst floorLog2.simps) simp
    next
      case b: False
      have "0 \<le> log 2 x" using False by simp
      moreover have "log 2 x < 1" using b 1(3) by (simp add: log_less_iff)
      ultimately have "\<lfloor>log 2 x\<rfloor> = 0" by linarith
      then show ?thesis using False b 1(3) by (subst floorLog2.simps) simp
    qed
  qed
qed

lemmas roundDouble_eval =
  roundDouble_def roundHalfEven_def Let_def floorLog2.simps power_int_def power_divide

text \<open>The doubles written \<open>0.58\<close>, \<open>0.3\<close> and \<open>0.08\<close>, and the products the planner floors.\<close>

lemma double_058: "roundDouble 0.58 = 5224175567749775 / 2 ^ 53"
  by (simp add: roundDouble_eval)

lemma double_03: "roundDouble 0.3 = 5404319552844595 / 2 ^ 54"
  by (simp add: roundDouble_eval)

lemma double_03_fixed: "roundDouble (5404319552844595 / 2 ^ 54) = 5404319552844595 / 2 ^ 54"
  by (simp add: roundDouble_eval)

lemma count_058: "\<lfloor>roundDouble (roundDouble (roundDouble 1 * roundDouble 0.58) * 50)\<rfloor> = 28"
  by (simp add: roundDouble_eval)

lemma count_03: "\<lfloor>roundDouble (roundDouble (roundDouble 1 * roundDouble 0.3) * 50)\<rfloor> = 15"
  by (simp add: roundDouble_eval)

lemma count_03_double:
  "\<lfloor>roundDouble (roundDouble (roundDouble 1 * roundDouble (5404319552844595 / 2 ^ 54)) * 50)\<rfloor> = 15"
  by (simp add: roundDouble_eval)

lemma count_008: "\<lfloor>roundDouble (roundDouble (roundDouble 1 * roundDouble 0.08) * 50)\<rfloor> = 4"
  by (simp add: roundDouble_eval)

text \<open>Exact arithmetic would give 29 and 14 where the doubles give 28 and 15.\<close>

lemma exact_products: "\<lfloor>(1::real) * 0.58 * 50\<rfloor> = 29" "\<lfloor>(1::real) * (5404319552844595 / 2 ^ 54) * 50\<rfloor> = 14"
  by simp_all

section \<open>Settlements: the target count on maps that are all land\<close>

lemma plainOptions_fraction:
  "real (countLandCells (so_biomes (plainOptions density)))
   / real (so_width (plainOptions density) * so_height (plainOptions density)) = 1"
  by (simp add: plainOptions_def countLandCells_def BIOME_OCEAN_def)

lemma plainOptions_density: "so_density (plainOptions density) = density"
  by (simp add: plainOptions_def)

lemma plainOptions_count_058: "settlementCount (plainOptions 0.58) = 28"
  unfolding settlementCount_def Let_def plainOptions_fraction plainOptions_density count_058
  by simp

lemma plainOptions_count_03: "settlementCount (plainOptions 0.3) = 15"
  unfolding settlementCount_def Let_def plainOptions_fraction plainOptions_density count_03
  by simp

lemma plainOptions_count_03_double: "settlementCount (plainOptions (5404319552844595 / 2 ^ 54)) = 15"
  unfolding settlementCount_def Let_def plainOptions_fraction plainOptions_density count_03_double
  by simp

lemma landOptions_fraction:
  "real (countLandCells (so_biomes landOptions)) / real (so_width landOptions * so_height landOptions) = 1"
  by (simp add: landOptions_def countLandCells_def BIOME_OCEAN_def)

lemma landOptions_density: "so_density landOptions = 0.08"
  by (simp add: landOptions_def)

lemma landOptions_count: "settlementCount landOptions = 4"
  unfolding settlementCount_def Let_def landOptions_fraction landOptions_density count_008
  by simp

section \<open>A concrete run of the settlement planner\<close>


lemma placeLoop_numeral:
  "placeLoop (numeral k) opts suitability minDistance settlements placedPositions rng =
     (if \<not> int (length settlements) < settlementCount opts then settlements
      else (case findSettlementLocation (int (so_width opts)) (int (so_height opts)) suitability
                   placedPositions minDistance rng of
              (None, rng1) \<Rightarrow>
                placeLoop (pred_numeral k) opts suitability minDistance settlements placedPositions rng1
            | (Some (lx, ly), rng1) \<Rightarrow>
                (let (size', rng2) =
                       determineSettlementSize lx ly (int (so_width opts)) suitability
                         (so_rivers opts) (so_biomes opts) rng1;
                     (newId, rng3) = uuid rng2;
                     (population, rng4) = generatePopulation size' rng3;
                     settlement =
                       \<lparr>st_id = newId, st_name = [], st_x = lx, st_y = ly, st_size = size',
                        st_population = population,
                        st_type = determineSettlementType lx ly (int (so_width opts))
                                    (so_biomes opts) (so_rivers opts) (so_heightmap opts)\<rparr>
                 in placeLoop (pred_numeral k) opts suitability minDistance (settlements @ [settlement])
                      (placedPositions @ [(lx, ly)]) rng4)))"
  by (simp add: numeral_eq_Suc)

lemma distance_less:
  "0 \<le> d \<Longrightarrow> distance x1 y1 x2 y2 < d \<longleftrightarrow> (x2 - x1) * (x2 - x1) + (y2 - y1) * (y2 - y1) < d * d"
proof -
  assume d: "0 \<le> d"
  have "sqrt ((x2 - x1) * (x2 - x1) + (y2 - y1) * (y2 - y1)) < d
        \<longleftrightarrow> sqrt ((x2 - x1) * (x2 - x1) + (y2 - y1) * (y2 - y1)) < sqrt (d * d)"
    using d by simp
  also have "\<dots> \<longleftrightarrow> (x2 - x1) * (x2 - x1) + (y2 - y1) * (y2 - y1) < d * d"
    by (rule real_sqrt_less_iff)
  finally show ?thesis by (simp add: distance_def Let_def)
qed

lemma sqrt_49_4: "sqrt (49 / 4) = 7 / 2"
  by (rule real_sqrt_unique) (simp_all add: power2_eq_square)

lemma landOptions_fields:
  "so_width landOptions = 7" "so_height landOptions = 7" "so_seed landOptions = ''alpha''"
  "so_heightmap landOptions = replicate 49 0.5" "so_moisture landOptions = replicate 49 0.5"
  "so_biomes landOptions = replicate 49 2" "so_rivers landOptions = []"
  by (simp_all add: landOptions_def)

lemma seed_alpha_settlements: "newSeededRandom ''alpha_settlements'' = (862544821, 414889211)"
  by (simp add: newSeededRandom_def charCodeAt_def)

lemma fillGrid_const:
  assumes "\<And>x y. x < w \<Longrightarrow> y < h \<Longrightarrow> cell x y = c"
  shows "fillGrid w h cell = replicate (w * h) c"
proof (rule nth_equalityI)
  show "length (fillGrid w h cell) = length (replicate (w * h) c)"
    by (simp add: length_fillGrid)
next
  fix i
  assume "i < length (fillGrid w h cell)"
  then have i: "i < w * h" by (simp add: length_fillGrid)
  then have w: "0 < w" by (cases w) auto
  have "arrGet (fillGrid w h cell) (int i) = cell (nat (int i) mod w) (nat (int i) div w)"
    using i by (intro arrGet_fillGrid_index) (simp_all flip: of_nat_mult)
  moreover have "i mod w < w" using w by simp
  moreover have "i div w < h" using i w by (simp add: less_mult_imp_div_less mult.commute)
  ultimately show "fillGrid w h cell ! i = replicate (w * h) c ! i"
    using assms i by (simp add: arrGet_def)
qed

lemma coastCell_land: "coastCell 7 7 (replicate 49 2) x y = 0"
proof -
  have "\<not> list_ex (\<lambda>(dx, dy).
                 (let nx = int x + dx; ny = int y + dy
                  in nx \<ge> 0 \<and> nx < 7 \<and> ny \<ge> 0 \<and> ny < 7
                     \<and> arrGet (replicate 49 (2::nat)) (coordToIndex nx ny 7) = BIOME_OCEAN)) (window 1)"
    by (auto simp: list_ex_iff Let_def coordToIndex_def arrGet_replicate BIOME_OCEAN_def)
  then show ?thesis by (simp add: coastCell_def)
qed

lemma land_suitability:
  "calculateSuitability 7 7 (replicate 49 0.5) (replicate 49 0.5) (replicate 49 2) []
   = replicate 49 0.71"
proof -
  have "suitabilityCell 7 (replicate 49 0.5) (replicate 49 0.5) (replicate 49 2) (replicate 49 0)
          (replicate 49 0) x y = 0.71" if "x < 7" "y < 7" for x y
  proof -
    have "0 \<le> int y * 7 + int x" "int y * 7 + int x < 49" using that by simp_all
    then show ?thesis
      by (simp add: suitabilityCell_def coordToIndex_def arrGet_replicate Let_def BIOME_OCEAN_def
            BIOME_MOUNTAIN_def BIOME_SNOW_def BIOME_BEACH_def)
  qed
  then have "fillGrid 7 7 (suitabilityCell 7 (replicate 49 0.5) (replicate 49 0.5) (replicate 49 2)
                (replicate 49 0) (replicate 49 0)) = replicate (7 * 7) 0.71"
    by (rule fillGrid_const)
  moreover have "fillGrid 7 7 (coastCell 7 7 (replicate 49 2)) = replicate (7 * 7) 0"
    by (rule fillGrid_const) (rule coastCell_land)
  ultimately show ?thesis
    by (simp add: calculateSuitability_def riverProximityMap_def Let_def)
qed

lemma candidateStep_squares:
  assumes "0 \<le> minDistance"
  shows "candidateStep width suitability placedPositions minDistance (x, y) candidates =
     (let score = arrGet suitability (coordToIndex x y width)
      in if score < 0.3 then candidates
         else if list_ex (\<lambda>(px, py). real_of_int ((px - x) * (px - x) + (py - y) * (py - y))
                                        < minDistance * minDistance)
                   placedPositions
           then candidates
         else candidates @ [(x, y, score * score)])"
proof -
  have "(\<lambda>(px, py). distance (real_of_int x) (real_of_int y) (real_of_int px) (real_of_int py)
                     < minDistance)
        = (\<lambda>(px, py). real_of_int ((px - x) * (px - x) + (py - y) * (py - y))
                     < minDistance * minDistance)"
    using assms by (auto simp: fun_eq_iff distance_less)
  then show ?thesis by (simp add: candidateStep_def Let_def)
qed

lemma land_run:
  "generateSettlements landOptions
   = sort_key (\<lambda>s. - st_population s)
       (placeLoop 40 landOptions (replicate 49 0.71) (7 / 4) [] [] (862544821, 414889211))"
proof -
  have a: "newSeededRandom (so_seed landOptions @ ''_settlements'') = (862544821, 414889211)"
    by (simp add: landOptions_fields seed_alpha_settlements)
  have b: "calculateSuitability (so_width landOptions) (so_height landOptions)
             (so_heightmap landOptions) (so_moisture landOptions) (so_biomes landOptions)
             (so_rivers landOptions) = replicate 49 0.71"
    unfolding landOptions_fields by (rule land_suitability)
  have c: "sqrt (real (so_width landOptions * so_height landOptions)
                 / real_of_int (settlementCount landOptions)) * 0.5 = 7 / 4"
    unfolding landOptions_fields landOptions_count using sqrt_49_4 by simp
  have d: "nat (settlementCount landOptions * 10) = 40"
    by (simp add: landOptions_count)
  show ?thesis
    unfolding generateSettlements_def Let_def a b c d ..
qed

text \<open>
  On the map of 7 by 7 cells the target is 4 and the four candidate cells are all taken,
  in the order \<open>(2, 2)\<close>, \<open>(4, 4)\<close>, \<open>(2, 4)\<close>, \<open>(4, 2)\<close>; the result is sorted by
  population. Each settlement is shown as its position and its population.
\<close>

lemma land_settlements:
  "map (\<lambda>s. (st_x s, st_y s, st_population s)) (generateSettlements landOptions)
   = [(2, 4, 17517), (4, 2, 12333), (2, 2, 8420), (4, 4, 2976)]"
  unfolding land_run
  by (simp add: landOptions_fields landOptions_count placeLoop_numeral findSettlementLocation_def
        strideFrom.simps candidateStep_squares determineSettlementSize_def
        isNearRiverMouth_def isNearMajorRiver_def generatePopulation_def
        determineSettlementType_def uuid_def hexDigit_def rngInt_def rngRange_def rngNext_eval
        arrGet_replicate coordToIndex_def BIOME_BEACH_def Let_def
      cong: prod.case_cong_weak let_weak_cong)

lemma land_settlements_length: "length (generateSettlements landOptions) = 4"
  using arg_cong [OF land_settlements, of length] by simp


section \<open>Value ranges: erosion, thermal erosion and river carving\<close>


lemma unitRange_nth: "unitRange xs \<Longrightarrow> i < length xs \<Longrightarrow> 0 \<le> xs ! i \<and> xs ! i \<le> 1"
  by (simp add: unitRange_def)

lemma unitRange_arrGet:
  "unitRange xs \<Longrightarrow> 0 \<le> i \<Longrightarrow> i < int (length xs) \<Longrightarrow> 0 \<le> arrGet xs i \<and> arrGet xs i \<le> 1"
  by (simp add: unitRange_def arrGet_def nat_less_iff)

lemma unitRange_update:
  assumes "unitRange xs" and "i < length xs \<Longrightarrow> 0 \<le> v \<and> v \<le> 1"
  shows "unitRange (xs[i := v])"
proof (cases "i < length xs")
  case True
  then show ?thesis using assms set_update_subset_insert [of xs i v]
    unfolding unitRange_def by auto
next
  case False
  then have "xs[i := v] = xs" by (simp add: list_update_beyond)
  then show ?thesis using assms(1) by simp
qed

lemma clamp_unit: "0 \<le> clamp v 0 (1::real) \<and> clamp v 0 1 \<le> 1"
  by (simp add: clamp_def)

lemma unitRange_normalizeResult: "unitRange (normalizeResult r)"
  by (auto simp: unitRange_def normalizeResult_def Let_def clamp_def)

lemma length_normalizeResult [simp]: "length (normalizeResult r) = length r"
  by (simp add: normalizeResult_def Let_def)

lemma length_addAt [simp]: "length (addAt hm i a) = length hm"
  by (simp add: addAt_def)

lemma length_depositSediment [simp]: "length (depositSediment hm x y w h a) = length hm"
  by (simp add: depositSediment_def Let_def)

lemma length_erodeTerrain [simp]: "length (erodeTerrain hm x y w h a) = length hm"
proof -
  have "length (fold (\<lambda>(idx, weight) hm. addAt hm idx (f weight)) ws hm) = length hm" for f ws
    by (induction ws arbitrary: hm) (auto split: prod.splits)
  then show ?thesis by (simp add: erodeTerrain_def Let_def)
qed

lemma length_exchangeSediment [simp]: "length (snd (exchangeSediment opts d r hdiff)) = length r"
  by (simp add: exchangeSediment_def Let_def)

lemma length_dropletLoop [simp]: "length (fst (dropletLoop n opts d r g)) = length r"
proof (induction n arbitrary: d r g)
  case 0
  then show ?case by simp
next
  case (Suc n)
  show ?case by (simp add: Let_def Suc case_prod_beta)
qed

lemma length_dropletRun [simp]: "length (fst (dropletRun opts st)) = length (fst st)"
  by (simp add: dropletRun_def Let_def split: prod.splits)

lemma length_dropletRuns [simp]: "length (fst ((dropletRun opts ^^ n) st)) = length (fst st)"
  by (induction n) simp_all

lemma length_applyErosion [simp]: "length (applyErosion hm seed opts) = length hm"
proof -
  have "length (fst ((dropletRun opts ^^ eo_iterations opts) (hm, newSeededRandom (seed @ ''_erosion'')))) = length hm"
    by simp
  then show ?thesis by (simp add: applyErosion_def Let_def case_prod_beta)
qed

lemma unitRange_applyErosion: "unitRange (applyErosion hm seed opts)"
  by (simp add: applyErosion_def Let_def unitRange_normalizeResult case_prod_beta)


lemma cell_index_bounds:
  assumes "0 \<le> x" "x < w" "0 \<le> y" "y < h"
  shows "0 \<le> coordToIndex x y w" "coordToIndex x y w < w * h"
proof -
  have w: "0 \<le> w" using assms by simp
  have "0 \<le> y * w" using assms w by simp
  then show "0 \<le> coordToIndex x y w" using assms by (simp add: coordToIndex_def)
  have "(y + 1) * w \<le> h * w" using assms w by (intro mult_right_mono) simp_all
  then have "y * w + w \<le> w * h" by (simp add: algebra_simps)
  then show "coordToIndex x y w < w * h" using assms by (simp add: coordToIndex_def)
qed

lemma interiorCells_mem:
  "(x, y) \<in> set (interiorCells w h) \<Longrightarrow> 1 \<le> x \<and> x < w - 1 \<and> 1 \<le> y \<and> y < h - 1"
  using set_strideFrom by (fastforce simp: interiorCells_def)

lemma unitRange_addAt:
  assumes "unitRange xs"
      and "0 \<le> i \<Longrightarrow> i < int (length xs) \<Longrightarrow> 0 \<le> arrGet xs i + a \<and> arrGet xs i + a \<le> 1"
  shows "unitRange (addAt xs i a)"
proof (cases "0 \<le> i")
  case True
  then show ?thesis
    unfolding addAt_def using assms
    by (auto intro!: unitRange_update simp: nat_less_iff)
next
  case False
  then show ?thesis using assms(1) by (simp add: addAt_def)
qed

lemma arrGet_addAt_other:
  "i \<noteq> j \<Longrightarrow> 0 \<le> j \<Longrightarrow> arrGet (addAt xs i a) j = arrGet xs j"
  by (auto simp: addAt_def arrGet_def)

lemma thermal_fold:
  "fold (thermalNeighbor result h talus) ns acc = acc
   \<or> (\<exists>n\<in>set ns. fold (thermalNeighbor result h talus) ns acc = (h - arrGet result n, n)
          \<and> h - arrGet result n > talus)"
proof (induction ns arbitrary: acc)
  case Nil
  then show ?case by simp
next
  case (Cons n ns)
  let ?acc' = "thermalNeighbor result h talus n acc"
  have step: "?acc' = acc \<or> (?acc' = (h - arrGet result n, n) \<and> h - arrGet result n > talus)"
    by (auto simp: thermalNeighbor_def Let_def split: prod.splits)
  from Cons.IH [of ?acc'] step show ?case by auto
qed

lemma thermal_arith:
  fixes h n :: real
  assumes "0 \<le> h \<and> h \<le> 1" "0 \<le> n \<and> n \<le> 1" "0.5 < h - n"
  shows "0 \<le> h + - ((h - n - 0.5) * 0.5) \<and> h + - ((h - n - 0.5) * 0.5) \<le> 1"
    and "0 \<le> n + (h - n - 0.5) * 0.5 \<and> n + (h - n - 0.5) * 0.5 \<le> 1"
  using assms by (auto simp: algebra_simps)

lemma thermalCell_unit:
  assumes u: "unitRange result" and len: "int (length result) = w * h"
      and int: "(x, y) \<in> set (interiorCells w h)"
  shows "unitRange (thermalCell w 0.5 (x, y) result)"
proof -
  from interiorCells_mem [OF int] have b: "1 \<le> x" "x < w - 1" "1 \<le> y" "y < h - 1" by simp_all
  let ?idx = "coordToIndex x y w"
  let ?h = "arrGet result ?idx"
  let ?ns = "[coordToIndex (x - 1) y w, coordToIndex (x + 1) y w,
              coordToIndex x (y - 1) w, coordToIndex x (y + 1) w]"
  have inr: "0 \<le> n \<and> n < int (length result)" if "n \<in> set (?idx # ?ns)" for n
  proof -
    from that obtain x' y' where n: "n = coordToIndex x' y' w" and "0 \<le> x'" "x' < w" "0 \<le> y'" "y' < h"
      using b by auto
    then show ?thesis using cell_index_bounds [of x' w y' h] len by simp
  qed
  have hr: "0 \<le> ?h \<and> ?h \<le> 1" using unitRange_arrGet [OF u] inr by simp
  let ?f = "fold (thermalNeighbor result ?h 0.5) ?ns (0, -1)"
  from thermal_fold [of result ?h "0.5" ?ns "(0, -1)"]
  consider (none) "?f = (0, -1)"
    | (some) n where "n \<in> set ?ns" "?f = (?h - arrGet result n, n)" "?h - arrGet result n > 0.5"
    by blast
  then show ?thesis
  proof cases
    case none
    then show ?thesis using u by (simp add: thermalCell_def Let_def)
  next
    case (some n)
    have n0: "0 \<le> n" and nl: "n < int (length result)" using inr [of n] some(1) by auto
    have nr: "0 \<le> arrGet result n \<and> arrGet result n \<le> 1" using unitRange_arrGet [OF u n0 nl] .
    have ne: "?idx \<noteq> n" using some(3) by auto
    let ?t = "(?h - arrGet result n - 0.5) * 0.5"
    let ?r1 = "addAt result ?idx (- ?t)"
    have ar: "0 \<le> ?h + - ?t \<and> ?h + - ?t \<le> 1"
         "0 \<le> arrGet result n + ?t \<and> arrGet result n + ?t \<le> 1"
      using thermal_arith [OF hr nr some(3)] by simp_all
    have u1: "unitRange ?r1"
      by (rule unitRange_addAt [OF u]) (rule ar(1))
    have "arrGet ?r1 n = arrGet result n" using arrGet_addAt_other [OF ne n0] .
    with ar(2) have "0 \<le> arrGet ?r1 n + ?t \<and> arrGet ?r1 n + ?t \<le> 1" by simp
    then have u2: "unitRange (addAt ?r1 n ?t)"
      by (intro unitRange_addAt [OF u1])
    show ?thesis using some(2) n0 u2 by (simp add: thermalCell_def Let_def)
  qed
qed

lemma length_thermalCell [simp]: "length (thermalCell w t p result) = length result"
  by (simp add: thermalCell_def Let_def case_prod_beta)

lemma thermal_scan_unit:
  assumes "unitRange result" "int (length result) = w * h" "set cells \<subseteq> set (interiorCells w h)"
  shows "unitRange (fold (thermalCell w 0.5) cells result)
         \<and> length (fold (thermalCell w 0.5) cells result) = length result"
  using assms
proof (induction cells arbitrary: result)
  case Nil
  then show ?case by simp
next
  case (Cons c cells)
  obtain x y where c: "c = (x, y)" by (cases c)
  have "unitRange (thermalCell w 0.5 c result)"
    unfolding c by (rule thermalCell_unit) (use Cons.prems c in auto)
  moreover have "int (length (thermalCell w 0.5 c result)) = w * h" using Cons.prems by simp
  ultimately show ?case using Cons.IH [of "thermalCell w 0.5 c result"] Cons.prems by simp
qed

lemma applyThermalErosion_unit:
  assumes "unitRange hm" "int (length hm) = w * h"
  shows "unitRange (applyThermalErosion hm w h n 0.5)
         \<and> length (applyThermalErosion hm w h n 0.5) = length hm"
proof (induction n)
  case 0
  then show ?case using assms by (simp add: applyThermalErosion_def)
next
  case (Suc n)
  let ?r = "applyThermalErosion hm w h n 0.5"
  have "applyThermalErosion hm w h (Suc n) 0.5 = fold (thermalCell w 0.5) (interiorCells w h) ?r"
    by (simp add: applyThermalErosion_def)
  moreover have "unitRange ?r" "int (length ?r) = w * h" using Suc assms by simp_all
  ultimately show ?case using thermal_scan_unit [of ?r w h "interiorCells w h"] Suc by simp
qed

lemma carveSegment_unit:
  assumes "unitRange hm" "0 \<le> depth * seg_flow s"
  shows "unitRange (carveSegment w depth s hm)" "length (carveSegment w depth s hm) = length hm"
proof -
  let ?idx = "coordToIndex \<lfloor>seg_x s\<rfloor> \<lfloor>seg_y s\<rfloor> w"
  have "unitRange (hm[nat ?idx := max 0 (arrGet hm ?idx - depth * seg_flow s)])"
  proof (rule unitRange_update [OF assms(1)])
    assume "nat ?idx < length hm"
    then have "0 \<le> hm ! nat ?idx \<and> hm ! nat ?idx \<le> 1" using assms(1) by (simp add: unitRange_def)
    then show "0 \<le> max 0 (arrGet hm ?idx - depth * seg_flow s)
               \<and> max 0 (arrGet hm ?idx - depth * seg_flow s) \<le> 1"
      using assms(2) by (simp add: arrGet_def)
  qed
  then show "unitRange (carveSegment w depth s hm)" using assms(1)
    by (simp add: carveSegment_def Let_def)
  show "length (carveSegment w depth s hm) = length hm"
    by (simp add: carveSegment_def Let_def)
qed

lemma carveSegments_unit:
  assumes "unitRange hm" "\<forall>s\<in>set segs. 0 \<le> depth * seg_flow s"
  shows "unitRange (fold (carveSegment w depth) segs hm)
         \<and> length (fold (carveSegment w depth) segs hm) = length hm"
  using assms
  by (induction segs arbitrary: hm) (simp_all add: carveSegment_unit)

lemma carveRivers_unit:
  assumes "unitRange hm" "\<forall>r\<in>set rivers. \<forall>s\<in>set (river_segments r). 0 \<le> depth * seg_flow s"
  shows "unitRange (carveRiversIntoHeightmap hm rivers w depth)
         \<and> length (carveRiversIntoHeightmap hm rivers w depth) = length hm"
  using assms unfolding carveRiversIntoHeightmap_def
proof (induction rivers arbitrary: hm)
  case Nil
  then show ?case by simp
next
  case (Cons r rivers)
  have "unitRange (fold (carveSegment w depth) (river_segments r) hm)
        \<and> length (fold (carveSegment w depth) (river_segments r) hm) = length hm"
    by (rule carveSegments_unit) (use Cons.prems in simp_all)
  then show ?case using Cons.IH [of "fold (carveSegment w depth) (river_segments r) hm"] Cons.prems
    by simp
qed

lemma generateRivers_flow_nonneg:
  assumes "r \<in> set (generateRivers opts)" "s \<in> set (river_segments r)"
  shows "0.3 \<le> seg_flow s"
proof -
  obtain r0 where r: "r = calculateRiverFlow r0" using assms(1) by (rule generateRivers_flow)
  obtain i where i: "i < length (river_segments r)" "s = river_segments r ! i"
    using assms(2) by (metis in_set_conv_nth)
  then have "i < length (river_segments r0)" by (simp add: r)
  from calculateRiverFlow_nth [OF this] ramp_bounds(1) [OF this] i r
  show ?thesis by (simp add: algebra_simps)
qed


section \<open>Value ranges: the Gaussian blur\<close>


lemma window_mem: "(kx, ky) \<in> set (window r) \<longleftrightarrow> - r \<le> kx \<and> kx \<le> r \<and> - r \<le> ky \<and> ky \<le> r"
  by (force simp: window_def)

lemma length_window: "0 \<le> r \<Longrightarrow> length (window r) = nat (2 * r + 1) * nat (2 * r + 1)"
proof -
  have "length (concat (map (\<lambda>dy. map (\<lambda>dx. (dx, dy)) xs) ys)) = length xs * length ys"
    for xs ys :: "int list"
    by (induction ys) simp_all
  then show ?thesis if "0 \<le> r" using that by (simp add: window_def)
qed

lemma fold_add: "fold (\<lambda>v acc. acc + v) xs (a::real) = a + sum_list xs"
  by (induction xs arbitrary: a) simp_all

lemma kernel_positive:
  assumes "0 < radius" and "v \<in> set (createGaussianKernel radius)"
  shows "0 < v"
proof -
  let ?s = "2 * (real_of_int radius / 3) * (real_of_int radius / 3)"
  let ?raw = "map (\<lambda>(x, y). exp (- real_of_int (x * x + y * y) / ?s) / (pi * ?s)) (window radius)"
  have "0 < real_of_int radius / 3" using assms(1) by simp
  then have s: "0 < ?s" by (intro mult_pos_pos) simp_all
  have ps: "0 < pi * ?s" by (rule mult_pos_pos [OF pi_gt_zero s])
  have pos: "0 < u" if "u \<in> set ?raw" for u
  proof -
    from that obtain a b where "u = exp (- real_of_int (a * a + b * b) / ?s) / (pi * ?s)" by auto
    then show ?thesis using divide_pos_pos [OF exp_gt_zero ps] by metis
  qed
  have "(0, 0) \<in> set (window radius)" using assms(1) by (simp add: window_mem)
  then have "?raw \<noteq> []" by auto
  then obtain u us where raw: "?raw = u # us" by (cases ?raw) auto
  have "0 \<le> sum_list us" using pos raw by (intro sum_list_nonneg) (metis less_imp_le list.set_intros(2))
  moreover have "0 < u" using pos raw by (metis list.set_intros(1))
  ultimately have tot: "0 < sum_list ?raw" unfolding raw by simp
  from assms(2) obtain u' where "u' \<in> set ?raw" "v = u' / sum_list ?raw"
    by (auto simp: createGaussianKernel_def Let_def fold_add)
  then show ?thesis using pos tot by simp
qed

lemma length_createGaussianKernel:
  "0 \<le> radius \<Longrightarrow> length (createGaussianKernel radius) = nat (2 * radius + 1) * nat (2 * radius + 1)"
  by (simp add: createGaussianKernel_def Let_def length_window)

lemma kernel_lookup_positive:
  assumes "0 < radius" "(kx, ky) \<in> set (window radius)"
  shows "0 < arrGet (createGaussianKernel radius) ((ky + radius) * (radius * 2 + 1) + (kx + radius))"
proof -
  let ?n = "radius * 2 + 1"
  from assms(2) have b: "0 \<le> kx + radius" "kx + radius < ?n" "0 \<le> ky + radius" "ky + radius < ?n"
    by (simp_all add: window_mem)
  from cell_index_bounds [OF b] have i: "0 \<le> (ky + radius) * ?n + (kx + radius)"
    "(ky + radius) * ?n + (kx + radius) < ?n * ?n" by (simp_all add: coordToIndex_def)
  have "int (length (createGaussianKernel radius)) = ?n * ?n"
    using assms(1) by (simp add: length_createGaussianKernel mult.commute)
  with i have "nat ((ky + radius) * ?n + (kx + radius)) < length (createGaussianKernel radius)"
    by linarith
  then have "arrGet (createGaussianKernel radius) ((ky + radius) * ?n + (kx + radius))
             \<in> set (createGaussianKernel radius)"
    by (simp add: arrGet_def)
  then show ?thesis using kernel_positive [OF assms(1)] by blast
qed

lemma clamp_index: "0 < w \<Longrightarrow> 0 \<le> clamp v 0 (w - 1) \<and> clamp v 0 (w - 1) < (w::int)"
  by (simp add: clamp_def)

lemma blur_fold:
  fixes t ws :: real and wt dv :: "'k \<Rightarrow> real"
  assumes "\<And>k. k \<in> set ks \<Longrightarrow> 0 < wt k \<and> 0 \<le> dv k \<and> dv k \<le> 1"
      and "0 \<le> t \<and> t \<le> ws"
  shows "0 \<le> fst (fold (\<lambda>k (t, ws). (t + dv k * wt k, ws + wt k)) ks (t, ws))
         \<and> fst (fold (\<lambda>k (t, ws). (t + dv k * wt k, ws + wt k)) ks (t, ws))
             \<le> snd (fold (\<lambda>k (t, ws). (t + dv k * wt k, ws + wt k)) ks (t, ws))
         \<and> ws \<le> snd (fold (\<lambda>k (t, ws). (t + dv k * wt k, ws + wt k)) ks (t, ws))
         \<and> (ks \<noteq> [] \<longrightarrow> ws < snd (fold (\<lambda>k (t, ws). (t + dv k * wt k, ws + wt k)) ks (t, ws)))"
  using assms
proof (induction ks arbitrary: t ws)
  case Nil
  then show ?case by auto
next
  case (Cons k ks)
  have k: "0 < wt k" "0 \<le> dv k" "dv k \<le> 1" using Cons.prems(1) [of k] by simp_all
  have "dv k * wt k \<le> 1 * wt k" using k by (intro mult_right_mono) simp_all
  moreover have "0 \<le> dv k * wt k" using k by simp
  ultimately have st: "0 \<le> t + dv k * wt k \<and> t + dv k * wt k \<le> ws + wt k"
    using Cons.prems(2) by simp
  from Cons.IH [of "t + dv k * wt k" "ws + wt k", OF _ st] Cons.prems(1) k
  show ?case by fastforce
qed

lemma blurCell_unit:
  assumes u: "unitRange data" and len: "int (length data) = w * h"
      and w: "0 < w" and h: "0 < h" and r: "0 < radius"
  shows "0 \<le> blurCell data w h radius (createGaussianKernel radius) x y
         \<and> blurCell data w h radius (createGaussianKernel radius) x y \<le> 1"
proof -
  let ?kern = "createGaussianKernel radius"
  let ?wt = "\<lambda>(kx, ky). arrGet ?kern ((ky + radius) * (radius * 2 + 1) + (kx + radius))"
  let ?dv = "\<lambda>(kx, ky). arrGet data (coordToIndex (clamp (int x + kx) 0 (w - 1))
                                         (clamp (int y + ky) 0 (h - 1)) w)"
  have step: "blurStep data w h radius ?kern (int x) (int y)
              = (\<lambda>k (t, ws). (t + ?dv k * ?wt k, ws + ?wt k))"
    by (auto simp: blurStep_def Let_def fun_eq_iff)
  have ok: "0 < ?wt k \<and> 0 \<le> ?dv k \<and> ?dv k \<le> 1" if "k \<in> set (window radius)" for k
  proof -
    obtain kx ky where k: "k = (kx, ky)" by (cases k)
    have "0 < ?wt k" using kernel_lookup_positive [OF r] that k by simp
    moreover have "0 \<le> ?dv k \<and> ?dv k \<le> 1"
    proof -
      have "0 \<le> coordToIndex (clamp (int x + kx) 0 (w - 1)) (clamp (int y + ky) 0 (h - 1)) w
            \<and> coordToIndex (clamp (int x + kx) 0 (w - 1)) (clamp (int y + ky) 0 (h - 1)) w < w * h"
        using cell_index_bounds [of "clamp (int x + kx) 0 (w - 1)" w "clamp (int y + ky) 0 (h - 1)" h]
          clamp_index [OF w] clamp_index [OF h] by blast
      then show ?thesis using unitRange_arrGet [OF u] len k by simp
    qed
    ultimately show ?thesis by simp
  qed
  have ne: "window radius \<noteq> []"
  proof -
    have "(0, 0) \<in> set (window radius)" using r by (simp add: window_mem)
    then show ?thesis by auto
  qed
  let ?f = "fold (\<lambda>k (t, ws). (t + ?dv k * ?wt k, ws + ?wt k)) (window radius) (0, 0)"
  from blur_fold [of "window radius" ?wt ?dv 0 0] ok ne
  have "0 \<le> fst ?f \<and> fst ?f \<le> snd ?f \<and> 0 < snd ?f" by simp
  then have "0 \<le> fst ?f / snd ?f \<and> fst ?f / snd ?f \<le> 1" by simp
  then show ?thesis by (simp add: blurCell_def step case_prod_beta)
qed

lemma gaussianBlur_grid:
  "length data = w * h \<Longrightarrow>
   gaussianBlur data w h radius
   = fillGrid w h (blurCell data (int w) (int h) radius (createGaussianKernel radius))"
  by (simp add: gaussianBlur_def Let_def length_fillGrid)

lemma gaussianBlur_unit:
  assumes "unitRange data" "length data = w * h" "0 < w" "0 < h" "0 < radius"
  shows "unitRange (gaussianBlur data w h radius)"
proof -
  have "int (length data) = int w * int h" using assms(2) by simp
  then show ?thesis
    using blurCell_unit [OF assms(1), of "int w" "int h" radius] assms(3-5)
    by (auto simp: unitRange_def gaussianBlur_grid [OF assms(2)] set_fillGrid)
qed

lemma length_gaussianBlur [simp]: "length (gaussianBlur data w h radius) = length data"
  by (simp add: gaussianBlur_def Let_def length_fillGrid)


section \<open>Value ranges: climate and biomes\<close>


lemma unitRange_fillGrid:
  "(\<And>x y. x < w \<Longrightarrow> y < h \<Longrightarrow> 0 \<le> cell x y \<and> cell x y \<le> 1) \<Longrightarrow> unitRange (fillGrid w h cell)"
  by (auto simp: unitRange_def set_fillGrid)

lemma temperature_unit:
  assumes "0 < w" "0 < h"
  shows "unitRange (fst (generateTemperature lib w h hm sea rng))"
    and "length (fst (generateTemperature lib w h hm sea rng)) = w * h"
proof -
  obtain noise rng' where l: "lib rng = (noise, rng')" by (cases "lib rng")
  have "unitRange (fillGrid w h (temperatureCell noise w h hm sea))"
    by (rule unitRange_fillGrid) (simp add: temperatureCell_def Let_def clamp_unit)
  then have "unitRange (gaussianBlur (fillGrid w h (temperatureCell noise w h hm sea)) w h 3)"
    by (rule gaussianBlur_unit) (use assms in simp_all)
  then show "unitRange (fst (generateTemperature lib w h hm sea rng))"
    by (simp add: generateTemperature_def l)
  show "length (fst (generateTemperature lib w h hm sea rng)) = w * h"
    by (simp add: generateTemperature_def l)
qed

lemma waterMoisture_unit:
  "unitRange (waterMoisture w h hm sea) \<and> length (waterMoisture w h hm sea) = w * h"
proof -
  have "unitRange (fold (\<lambda>i m. if hm ! i < sea then m[i := 1] else m) is m)
        \<and> length (fold (\<lambda>i m. if hm ! i < sea then m[i := 1] else m) is m) = length m"
    if "unitRange m" for "is" m
    using that
  proof (induction "is" arbitrary: m)
    case Nil
    then show ?case by simp
  next
    case (Cons i "is")
    have "unitRange (if hm ! i < sea then m[i := 1] else m)"
      using Cons.prems by (simp add: unitRange_update)
    from Cons.IH [OF this] show ?case by simp
  qed
  moreover have "unitRange (replicate (w * h) 0)" by (simp add: unitRange_def)
  ultimately show ?thesis by (simp add: waterMoisture_def)
qed

lemma spreadCell_unit:
  assumes u: "unitRange tm" and len: "int (length tm) = w * h"
      and int: "(x, y) \<in> set (interiorCells w h)"
  shows "unitRange (spreadCell w hm sea (x, y) tm)"
proof -
  from interiorCells_mem [OF int] have b: "1 \<le> x" "x < w - 1" "1 \<le> y" "y < h - 1" by simp_all
  have rd: "0 \<le> arrGet tm (coordToIndex x' y' w) \<and> arrGet tm (coordToIndex x' y' w) \<le> 1"
    if "0 \<le> x'" "x' < w" "0 \<le> y'" "y' < h" for x' y'
    using unitRange_arrGet [OF u] cell_index_bounds [OF that] len by simp
  define mx where "mx = fold max [arrGet tm (coordToIndex (x - 1) y w),
      arrGet tm (coordToIndex (x + 1) y w), arrGet tm (coordToIndex x (y - 1) w),
      arrGet tm (coordToIndex x (y + 1) w)]
     (hd [arrGet tm (coordToIndex (x - 1) y w),
      arrGet tm (coordToIndex (x + 1) y w), arrGet tm (coordToIndex x (y - 1) w),
      arrGet tm (coordToIndex x (y + 1) w)])"
  have m: "0 \<le> mx \<and> mx \<le> 1"
    unfolding mx_def
    using rd [of "x - 1" y] rd [of "x + 1" y] rd [of x "y - 1"] rd [of x "y + 1"] b
    by (auto simp: max_def)
  define cur where "cur = arrGet tm (coordToIndex x y w)"
  have c: "0 \<le> cur \<and> cur \<le> 1"
    unfolding cur_def using rd [of x y] b by simp
  have p: "0 \<le> max cur (mx * pen) \<and> max cur (mx * pen) \<le> 1"
    if "0 \<le> pen" "pen \<le> 1" for pen :: real
  proof -
    have "mx * pen \<le> 1 * 1" using m that by (intro mult_mono) simp_all
    moreover have "0 \<le> mx * pen" using m that by simp
    ultimately show ?thesis using c by (auto simp: max_def)
  qed
  have "unitRange (tm[nat (coordToIndex x y w) := max cur (mx * pen)])"
    if "0 \<le> pen" "pen \<le> 1" for pen :: real
    by (rule unitRange_update [OF u]) (use p [OF that] in simp)
  from this [of "0.7"] this [of "0.92"] show ?thesis
    using u unfolding spreadCell_def Let_def mx_def cur_def by simp
qed

lemma length_spreadCell [simp]: "length (spreadCell w hm sea p tm) = length tm"
  by (simp add: spreadCell_def Let_def case_prod_beta)

lemma spread_scan_unit:
  assumes "unitRange tm" "int (length tm) = w * h" "set cells \<subseteq> set (interiorCells w h)"
  shows "unitRange (fold (spreadCell w hm sea) cells tm)
         \<and> length (fold (spreadCell w hm sea) cells tm) = length tm"
  using assms
proof (induction cells arbitrary: tm)
  case Nil
  then show ?case by simp
next
  case (Cons c cells)
  obtain x y where c: "c = (x, y)" by (cases c)
  have "unitRange (spreadCell w hm sea c tm)"
    unfolding c by (rule spreadCell_unit) (use Cons.prems c in auto)
  moreover have "int (length (spreadCell w hm sea c tm)) = w * h" using Cons.prems by simp
  ultimately show ?case using Cons.IH [of "spreadCell w hm sea c tm"] Cons.prems by simp
qed

lemma spread_passes_unit:
  assumes "unitRange tm" "int (length tm) = w * h"
  shows "unitRange (((\<lambda>tm. fold (spreadCell w hm sea) (interiorCells w h) tm) ^^ n) tm)
         \<and> length (((\<lambda>tm. fold (spreadCell w hm sea) (interiorCells w h) tm) ^^ n) tm) = length tm"
proof (induction n)
  case 0
  then show ?case using assms by simp
next
  case (Suc n)
  let ?r = "((\<lambda>tm. fold (spreadCell w hm sea) (interiorCells w h) tm) ^^ n) tm"
  have r: "unitRange ?r" "int (length ?r) = w * h" using Suc assms by simp_all
  have "unitRange (fold (spreadCell w hm sea) (interiorCells w h) ?r)
        \<and> length (fold (spreadCell w hm sea) (interiorCells w h) ?r) = length ?r"
    by (rule spread_scan_unit [where h = h]) (use r in simp_all)
  then show ?case using Suc by simp
qed

lemma moisture_unit:
  assumes "0 < w" "0 < h"
  shows "unitRange (generateMoisture lib w h hm temp sea rng)"
    and "length (generateMoisture lib w h hm temp sea rng) = w * h"
proof -
  obtain noise rng' where l: "lib rng = (noise, rng')" by (cases "lib rng")
  let ?tm = "((\<lambda>tm. fold (spreadCell (int w) hm sea) (interiorCells (int w) (int h)) tm) ^^ 30)
               (waterMoisture w h hm sea)"
  have wm: "unitRange (waterMoisture w h hm sea)" "int (length (waterMoisture w h hm sea)) = int w * int h"
    using waterMoisture_unit [of w h hm sea] by simp_all
  from spread_passes_unit [OF wm, where hm = hm and sea = sea and n = 30]
  have tm: "unitRange ?tm" "int (length ?tm) = int w * int h" using wm by simp_all
  have "unitRange (fillGrid w h (moistureCell noise w hm temp sea ?tm))"
  proof (rule unitRange_fillGrid)
    fix x y assume xy: "x < w" "y < h"
    have "0 \<le> arrGet ?tm (coordToIndex (int x) (int y) (int w))
          \<and> arrGet ?tm (coordToIndex (int x) (int y) (int w)) \<le> 1"
      using unitRange_arrGet [OF tm(1)] cell_index_bounds [of "int x" "int w" "int y" "int h"] xy tm(2)
      by simp
    then show "0 \<le> moistureCell noise w hm temp sea ?tm x y \<and> moistureCell noise w hm temp sea ?tm x y \<le> 1"
      by (simp add: moistureCell_def Let_def clamp_unit)
  qed
  then have "unitRange (gaussianBlur (fillGrid w h (moistureCell noise w hm temp sea ?tm)) w h 4)"
    by (rule gaussianBlur_unit) (use assms in simp_all)
  then show "unitRange (generateMoisture lib w h hm temp sea rng)"
    by (simp add: generateMoisture_def l Let_def)
  show "length (generateMoisture lib w h hm temp sea rng) = w * h"
    by (simp add: generateMoisture_def l Let_def)
qed

lemma climate_unit:
  assumes "0 < co_width opts" "0 < co_height opts"
  shows "unitRange (fst (generateClimate lib opts))" "unitRange (snd (generateClimate lib opts))"
    "length (fst (generateClimate lib opts)) = co_width opts * co_height opts"
    "length (snd (generateClimate lib opts)) = co_width opts * co_height opts"
  using temperature_unit [OF assms] moisture_unit [OF assms]
  by (simp_all add: generateClimate_def Let_def case_prod_beta)

lemma generateBiomes_le_9:
  "b \<in> set (generateBiomes lib opts) \<Longrightarrow> b \<le> 9"
  using classifyBiome_le_9 by (auto simp: generateBiomes_def Let_def set_fillGrid biomeCell_def)

lemma length_generateBiomes [simp]:
  "length (generateBiomes lib opts) = bo_width opts * bo_height opts"
  by (simp add: generateBiomes_def Let_def)

lemma mergeConfig_size:
  "(mc_width (mergeConfig rnd given), mc_height (mergeConfig rnd given))
   = MAP_SIZE_CONFIG (mc_mapSize (mergeConfig rnd given))"
  by (simp add: mergeConfig_def Let_def case_prod_beta)

lemma MAP_SIZE_CONFIG_pos: "0 < fst (MAP_SIZE_CONFIG sz) \<and> 0 < snd (MAP_SIZE_CONFIG sz)"
  by (cases sz) simp_all

lemma mergeConfig_pos: "0 < mc_width (mergeConfig rnd given) \<and> 0 < mc_height (mergeConfig rnd given)"
  using MAP_SIZE_CONFIG_pos [of "mc_mapSize (mergeConfig rnd given)"]
  by (simp add: mergeConfig_size [symmetric])


section \<open>Properties of the pipeline\<close>


lemma generateMap_Inr: "generateMap lib gh rnd given = Inr (projr (generateMap lib gh rnd given))"
  by (simp add: generateMap_def Let_def case_prod_beta)

lemma generateMap_config: "md_config (projr (generateMap lib gh rnd given)) = mergeConfig rnd given"
  by (simp add: generateMap_def Let_def case_prod_beta)

lemma nat_mult_pos: "0 < w \<Longrightarrow> 0 < h \<Longrightarrow> nat w * nat h = nat (w * h) \<and> int (nat (w * h)) = w * h"
  by (simp add: nat_mult_distrib)

lemma generateMap_ranges:
  fixes lib :: NoiseLib and gh :: "HeightmapOptions \<Rightarrow> real list" and rnd :: "nat \<Rightarrow> real"
    and given :: PartialMapConfig
  assumes gh: "\<And>opts. length (gh opts) = nat (ho_width opts * ho_height opts)"
  defines "d \<equiv> projr (generateMap lib gh rnd given)"
  defines "n \<equiv> nat (mc_width (md_config d) * mc_height (md_config d))"
  shows "unitRange (md_heightmap d)" "unitRange (md_temperature d)" "unitRange (md_moisture d)"
    "\<forall>b\<in>set (md_biomes d). b \<le> 9"
    "length (md_heightmap d) = n" "length (md_temperature d) = n" "length (md_moisture d) = n"
    "length (md_biomes d) = n" "0 < n"
proof -
  define config where "config = mergeConfig rnd given"
  define w where "w = mc_width config"
  define h where "h = mc_height config"
  have pos: "0 < w" "0 < h" using mergeConfig_pos [of rnd given] by (simp_all add: w_def h_def config_def)
  note wh = nat_mult_pos [OF pos]
  define h0 where "h0 = gh \<lparr>ho_width = w, ho_height = h, ho_seed = mc_seed config,
                         ho_mapType = mc_mapType config, ho_seaLevel = mc_seaLevel config,
                         ho_roughness = mc_roughness config,
                         ho_waterCoverage = mc_waterCoverage config\<rparr>"
  define h1 where "h1 = applyErosion h0 (mc_seed config)
                        (DEFAULT_EROSION_OPTIONS
                           \<lparr>eo_width := w, eo_height := h,
                            eo_iterations := nat \<lfloor>real_of_int (w * h) * 0.1\<rfloor>\<rparr>)"
  define h2 where "h2 = applyThermalErosion h1 w h 5 0.5"
  define cl where "cl = generateClimate lib
               \<lparr>co_width = nat w, co_height = nat h, co_seed = mc_seed config,
                co_heightmap = h2, co_seaLevel = mc_seaLevel config\<rparr>"
  define biomes where "biomes = generateBiomes lib
                     \<lparr>bo_width = nat w, bo_height = nat h, bo_heightmap = h2,
                      bo_temperature = fst cl, bo_moisture = snd cl,
                      bo_seaLevel = mc_seaLevel config, bo_seed = mc_seed config\<rparr>"
  define rivers where "rivers = generateRivers
                     \<lparr>ro_width = nat w, ro_height = nat h, ro_seed = mc_seed config,
                      ro_heightmap = h2, ro_moisture = snd cl,
                      ro_seaLevel = mc_seaLevel config, ro_riverCount = nat (w div 50),
                      ro_minRiverLength = 15\<rparr>"
  define h3 where "h3 = carveRiversIntoHeightmap h2 rivers w 0.02"
  have d: "md_config d = config" "md_heightmap d = h3" "md_temperature d = fst cl"
    "md_moisture d = snd cl" "md_biomes d = biomes"
    unfolding d_def generateMap_def Let_def case_prod_beta
      h3_def rivers_def biomes_def cl_def h2_def h1_def h0_def w_def h_def config_def
    by simp_all
  have n: "n = nat (w * h)" by (simp add: n_def d w_def h_def)
  have l0: "length h0 = nat (w * h)" by (simp add: h0_def gh)
  have l1: "length h1 = nat (w * h)" and u1: "unitRange h1"
    by (simp_all add: h1_def l0 unitRange_applyErosion)
  have "int (length h1) = w * h" using l1 wh by simp
  from applyThermalErosion_unit [OF u1 this, of 5]
  have u2: "unitRange h2" and l2: "length h2 = nat (w * h)" by (simp_all add: h2_def l1)
  have cp: "0 < nat w" "0 < nat h" using pos by simp_all
  have ucl: "unitRange (fst cl)" "unitRange (snd cl)"
    and lcl: "length (fst cl) = nat (w * h)" "length (snd cl) = nat (w * h)"
    using climate_unit [of "\<lparr>co_width = nat w, co_height = nat h, co_seed = mc_seed config,
                co_heightmap = h2, co_seaLevel = mc_seaLevel config\<rparr>" lib] cp wh
    by (simp_all add: cl_def)
  have ub: "\<forall>b\<in>set biomes. b \<le> 9" and lb: "length biomes = nat (w * h)"
    using generateBiomes_le_9 wh by (auto simp: biomes_def)
  have "\<forall>r\<in>set rivers. \<forall>s\<in>set (river_segments r). 0 \<le> 0.02 * seg_flow s"
    using generateRivers_flow_nonneg unfolding rivers_def by fastforce
  from carveRivers_unit [OF u2 this, of w]
  have u3: "unitRange h3" and l3: "length h3 = nat (w * h)" by (simp_all add: h3_def l2)
  show "unitRange (md_heightmap d)" "unitRange (md_temperature d)" "unitRange (md_moisture d)"
    "\<forall>b\<in>set (md_biomes d). b \<le> 9"
    "length (md_heightmap d) = n" "length (md_temperature d) = n" "length (md_moisture d) = n"
    "length (md_biomes d) = n" "0 < n"
    using u3 ucl ub l3 lcl lb n wh pos by (simp_all add: d)
qed



lemma generateSeed_zero: "generateSeed zeroRandom = ''AAAAAAAAAAAA''"
  by (simp add: generateSeed_def zeroRandom_def seedChars_def upt_rec roundDouble_eval)

lemma generateSeed_half: "generateSeed halfRandom = ''ffffffffffff''"
  by (simp add: generateSeed_def halfRandom_def seedChars_def upt_rec roundDouble_eval)

text \<open>
  With an empty seed the configuration the stages run on has a generated seed, which
  follows the values of \<open>Math.random\<close>.
\<close>

lemma empty_seed_runs_differ:
  "mc_seed (mergeConfig zeroRandom emptySeedGiven) = ''AAAAAAAAAAAA''
   \<and> mc_seed (mergeConfig halfRandom emptySeedGiven) = ''ffffffffffff''"
  by (simp add: mergeConfig_def Let_def case_prod_beta emptySeedGiven_def noneGiven_def
        generateSeed_zero generateSeed_half)

section \<open>Claims about the biome classifier\<close>

text \<open>
  Claim C10. The biome classifier never produces the lake biome: whatever the elevation,
  temperature, moisture, sea level and thresholds, the id returned is one of the ten ids
  0 to 9, and the id of \<open>lake\<close>, which is 10 in the id table, is the id of no cell of the
  biome grid that \<open>generateBiomes\<close> returns.
\<close>

theorem classifyBiome_never_lake:
  "classifyBiome e t m s b ml sl \<le> 9
   \<and> classifyBiome e t m s b ml sl \<noteq> BIOME_IDS lake
   \<and> BIOME_IDS lake = 10
   \<and> BIOME_IDS lake \<notin> set (generateBiomes createNoise2D opts)"
proof -
  have "k \<le> 9" if "k \<in> set (generateBiomes createNoise2D opts)" for k
    using that classifyBiome_le_9
    by (auto simp: generateBiomes_def Let_def set_fillGrid biomeCell_def)
  then have "10 \<notin> set (generateBiomes createNoise2D opts)" by force
  moreover have "classifyBiome e t m s b ml sl \<noteq> 10"
    using classifyBiome_le_9 [of e t m s b ml sl] by simp
  ultimately show ?thesis using classifyBiome_le_9 [of e t m s b ml sl] by simp
qed

text \<open>
  Claim C5. On the snapshot the classifier consumed (the heightmap handed to
  \<open>generateBiomes\<close>), a cell's elevation is strictly below the configured sea level
  if and only if the biome id assigned to that cell is ocean (id 0). This holds for
  every cell \<open>(x, y)\<close> of the grid.
\<close>

theorem ocean_biome_iff_below_sea_level:
  assumes "x < bo_width opts" and "y < bo_height opts"
  shows "arrGet (bo_heightmap opts) (coordToIndex (int x) (int y) (int (bo_width opts))) < bo_seaLevel opts
         \<longleftrightarrow> arrGet (generateBiomes createNoise2D opts) (coordToIndex (int x) (int y) (int (bo_width opts)))
               = BIOME_IDS ocean"
  using assms
  by (simp add: generateBiomes_def Let_def get_fillGrid biomeCell_def classifyBiome_ocean_iff)

definition exampleBiomeOptions :: BiomeOptions where
  "exampleBiomeOptions =
     \<lparr>bo_width = 2, bo_height = 1, bo_heightmap = [0.2, 0.5], bo_temperature = [0.5, 0.5],
      bo_moisture = [0.5, 0.5], bo_seaLevel = 0.35, bo_seed = ''alpha''\<rparr>"

theorem ocean_biome_iff_below_sea_level_witness:
  "(0::nat) < bo_width exampleBiomeOptions \<and> (0::nat) < bo_height exampleBiomeOptions
   \<and> arrGet (bo_heightmap exampleBiomeOptions) (coordToIndex 0 0 2) < bo_seaLevel exampleBiomeOptions
   \<and> arrGet (generateBiomes (\<lambda>rng. (\<lambda>x y. 0, rng)) exampleBiomeOptions) (coordToIndex 0 0 2)
       = BIOME_IDS ocean"
  using ocean_biome_iff_below_sea_level [of 0 exampleBiomeOptions 0 "\<lambda>rng. (\<lambda>x y. 0, rng)"]
  by (simp add: exampleBiomeOptions_def arrGet_def coordToIndex_def)



section \<open>Claims about settlements\<close>

text \<open>
  Claim C8, as stated: every run of the settlement planner returns at least 3 and at most
  100 settlements, and no more than the target count. The lower bound fails: the loop
  gives up after ten attempts per requested settlement, and on a map without a suitable
  cell every attempt fails. On the all-ocean map of 256 by 256 cells no settlement is
  returned.
\<close>

theorem settlement_count_counterexample:
  "length (generateSettlements oceanOptions) = 0
   \<and> \<not> 3 \<le> length (generateSettlements oceanOptions)"
  by (simp add: oceanOptions_no_settlements)

text \<open>
  Claim C8, amended: for a map of positive width and height, the number of settlements
  returned is at most the target count, and the target count is
  (land-cell fraction * density * 50), computed in doubles, floored and clamped to
  \<open>[3, 100]\<close>. The number returned can be anything from 0 up to the target.
\<close>

theorem settlement_count_at_most_target:
  assumes "0 < so_width opts" and "0 < so_height opts"
  shows "int (length (generateSettlements opts)) \<le> settlementCount opts
         \<and> 3 \<le> settlementCount opts \<and> settlementCount opts \<le> 100
         \<and> settlementCount opts
             = max 3 (min \<lfloor>roundDouble
                             (roundDouble
                                (roundDouble (real (countLandCells (so_biomes opts))
                                              / real (so_width opts * so_height opts))
                                 * roundDouble (so_density opts))
                              * 50)\<rfloor> 100)"
  using generateSettlements_length [of opts] settlementCount_bounds [of opts]
  by (simp add: settlementCount_def Let_def)

text \<open>
  The run on the map of 7 by 7 cells of grassland with density 0.08: the target is 4 and
  4 settlements are returned.
\<close>

theorem settlement_count_at_most_target_witness:
  "0 < so_width landOptions \<and> 0 < so_height landOptions
   \<and> int (length (generateSettlements landOptions)) \<le> settlementCount landOptions
   \<and> length (generateSettlements landOptions) = 4
   \<and> settlementCount landOptions = 4"
proof -
  have w: "0 < so_width landOptions" and h: "0 < so_height landOptions"
    by (simp_all add: landOptions_def)
  from settlement_count_at_most_target [OF w h] w h land_settlements_length landOptions_count
  show ?thesis by simp
qed
section \<open>Claims about the heightmap blend\<close>

lemma blendCell_ocean: "m < 0.3 \<Longrightarrow> blendCell m t = (m / 0.3) * 0.35 * 0.95"
  by (simp add: blendCell_def Let_def)

lemma blendCell_ocean_mono:
  "m1 < m2 \<Longrightarrow> m2 < 0.3 \<Longrightarrow> blendCell m1 t1 < blendCell m2 t2"
  by (simp add: blendCell_ocean)

lemma blendCell_ocean_below: "m < 0.3 \<Longrightarrow> blendCell m t < 0.35"
  by (simp add: blendCell_ocean)

text \<open>
  Claim C4. For a cell whose mask value is below 0.3 the claim gives the height
  \<open>(mask / 0.3) * seaLevel * 0.95\<close> with the configured sea level. The blend has no access
  to the configuration: it computes \<open>(mask / 0.3) * 0.35 * 0.95\<close>, which agrees with the
  claim only for the default sea level 0.35, and lies below 0.35 but not necessarily
  below the configured level. With a configured sea level of 0.5 and a mask value of
  0.15 the claim gives 0.2375; the code gives 0.16625. (In the mask value the height is
  strictly increasing, as the claim says.)
\<close>

theorem blendCell_fixed_sea_level:
  "blendCell 0.15 t = 0.16625 \<and> blendCell 0.15 t \<noteq> (0.15 / 0.3) * 0.5 * 0.95"
  by (simp add: blendCell_def Let_def)



section \<open>Claims about the pipeline\<close>


text \<open>
  Claim C2. Whatever the configuration and the seed, every cell of the map data returned by
  \<open>generateMap\<close> has an elevation, a temperature and a moisture in \<open>[0, 1]\<close> and a
  biome id in \<open>0..10\<close>. The grids are those of the returned \<open>MapData\<close>: the heightmap
  after hydraulic erosion, thermal erosion and river carving, the moisture after its blur.
  Phase 1 is only asked to yield a grid of \<open>width * height\<close> cells; its values are
  arbitrary, since \<open>applyErosion\<close> ends by clamping every cell.
\<close>

theorem map_data_ranges:
  fixes createNoise2D :: NoiseLib and generateHeightmap :: "HeightmapOptions \<Rightarrow> real list"
    and mathRandom :: "nat \<Rightarrow> real" and given :: PartialMapConfig
  assumes size: "\<And>opts. length (generateHeightmap opts) = nat (ho_width opts * ho_height opts)"
      and run: "generateMap createNoise2D generateHeightmap mathRandom given = Inr d"
      and cell: "i < nat (mc_width (md_config d) * mc_height (md_config d))"
  shows "i < length (md_heightmap d) \<and> 0 \<le> md_heightmap d ! i \<and> md_heightmap d ! i \<le> 1
       \<and> i < length (md_temperature d) \<and> 0 \<le> md_temperature d ! i \<and> md_temperature d ! i \<le> 1
       \<and> i < length (md_moisture d) \<and> 0 \<le> md_moisture d ! i \<and> md_moisture d ! i \<le> 1
       \<and> i < length (md_biomes d) \<and> md_biomes d ! i \<le> 10"
proof -
  have d: "d = projr (generateMap createNoise2D generateHeightmap mathRandom given)"
    by (simp add: run)
  note r = generateMap_ranges [of generateHeightmap createNoise2D mathRandom given, OF size,
      folded d]
  have i: "i < length (md_heightmap d)" "i < length (md_temperature d)"
    "i < length (md_moisture d)" "i < length (md_biomes d)"
    using cell by (simp_all add: r)
  have "md_biomes d ! i \<le> 9" using r(4) i(4) by simp
  then have "md_biomes d ! i \<le> 10" by simp
  with i unitRange_nth [OF r(1) i(1)] unitRange_nth [OF r(2) i(2)] unitRange_nth [OF r(3) i(3)]
  show ?thesis by simp
qed

text \<open>The run on the configuration with seed \<open>alpha\<close>, at cell 0.\<close>

theorem map_data_ranges_witness:
  "generateMap flatNoise flatHeightmap zeroRandom alphaGiven = Inr alphaMap
   \<and> 0 < nat (mc_width (md_config alphaMap) * mc_height (md_config alphaMap))
   \<and> 0 \<le> md_heightmap alphaMap ! 0 \<and> md_heightmap alphaMap ! 0 \<le> 1
   \<and> 0 \<le> md_temperature alphaMap ! 0 \<and> md_temperature alphaMap ! 0 \<le> 1
   \<and> 0 \<le> md_moisture alphaMap ! 0 \<and> md_moisture alphaMap ! 0 \<le> 1
   \<and> md_biomes alphaMap ! 0 \<le> 10"
proof -
  have run: "generateMap flatNoise flatHeightmap zeroRandom alphaGiven = Inr alphaMap"
    unfolding alphaMap_def by (rule generateMap_Inr)
  have size: "\<And>opts. length (flatHeightmap opts) = nat (ho_width opts * ho_height opts)"
    by (simp add: flatHeightmap_def)
  have "md_config alphaMap = mergeConfig zeroRandom alphaGiven"
    unfolding alphaMap_def by (rule generateMap_config)
  then have cell: "0 < nat (mc_width (md_config alphaMap) * mc_height (md_config alphaMap))"
    using mergeConfig_pos [of zeroRandom alphaGiven] by simp
  from map_data_ranges [of flatHeightmap flatNoise zeroRandom alphaGiven alphaMap 0, OF size run cell]
    run cell
  show ?thesis by simp
qed






end
